theory Spec2Isabelle
  imports Main "HOL-Library.Sublist"
begin

section \<open>TechTrack: record store and lifecycle handlers of app.py\<close>

text \<open>
  The program keeps four tables (Items, Usage_Log, Reports, Users) in a remote
  spreadsheet and drives them from page handlers. The embedding below follows
  \<^verbatim>\<open>src/app.py\<close> function by function. Remote calls, exceptions and the
  messages a handler shows are explicit: a computation takes the remote state and
  returns its result (a value or the raised exception), the messages it showed, and
  the remote state it leaves behind, which is kept when an exception is raised.
\<close>

subsection \<open>Data\<close>

type_synonym row = "string list"
type_synonym worksheet = "row list"

text \<open>A Python dict with string keys and values, in insertion order.\<close>
type_synonym pyrecord = "(string \<times> string) list"

text \<open>
  The frame \<^verbatim>\<open>pd.DataFrame(data)\<close> of a list of records. The frames of the program
  are all built by \<^verbatim>\<open>read_sheet\<close> from \<^verbatim>\<open>get_all_records\<close>, whose records carry
  the keys of the header row; a key a record lacks is then no column of the frame.
\<close>
type_synonym dataframe = "pyrecord list"

datatype error =
    TransportError
  | WorksheetNotFound
  | GSpreadException
  | APIError
  | KeyError
  | IndexError
  | ValueError

text \<open>
  The remote spreadsheet: its worksheets by title, and the number of requests the
  remote service will still answer (a request beyond it fails with
  \<open>TransportError\<close>: network, authentication or rate limit).
\<close>
record remote =
  sheets :: "string \<rightharpoonup> worksheet"
  quota :: nat

text \<open>The calls of \<^verbatim>\<open>st.error\<close>, \<^verbatim>\<open>st.warning\<close> and \<^verbatim>\<open>st.success\<close>, one constructor
  for each call site, with the values its text is formatted from.\<close>
datatype msg =
    ErrReading string error          \<comment> \<open>read_sheet: "Error reading {sheet_name}: {e}"\<close>
  | ErrIdNotFound string string      \<comment> \<open>update_cell_by_id: "ID {id_val} not found in {sheet_name}"\<close>
  | WarnInit string error            \<comment> \<open>init_sheet_headers: "Could not init {sheet_name}: {e}"\<close>
  | ErrItemNotFound string           \<comment> \<open>do_action: "Item {item_id} not found!"\<close>
  | ErrCannotCheckOut string         \<comment> \<open>do_action: "Item is currently {current} - cannot check out!"\<close>
  | ErrNotCheckedOut string          \<comment> \<open>do_action: "Item is not checked out (status: {current})"\<close>
  | OkAction string string           \<comment> \<open>do_action: "{item_name} - {label} successfully!"\<close>
  | ErrNameRequired                  \<comment> \<open>page_register_item: "Item name is required!"\<close>
  | OkItemSaved string               \<comment> \<open>page_register_item: "Item saved to Google Sheets! ID: {item_id}"\<close>
  | OkReportUpdated                  \<comment> \<open>page_manage_reports: "Report updated in Google Sheets!"\<close>
  | ErrTitleRequired                 \<comment> \<open>page_submit_report: "Title and description are required!"\<close>
  | OkReportSubmitted string         \<comment> \<open>page_submit_report: "Report submitted! ID: {rep_id}"\<close>
  | WarnDecode error                 \<comment> \<open>decode_qr_from_upload: "QR decode error: {e}. Use Manual Entry tab instead."\<close>

type_synonym 'a io = "remote \<Rightarrow> (error + 'a) \<times> msg list \<times> remote"

definition io_return :: "'a \<Rightarrow> 'a io" where
  "io_return x w = (Inr x, [], w)"

definition io_raise :: "error \<Rightarrow> 'a io" where
  "io_raise e w = (Inl e, [], w)"

definition io_bind :: "'a io \<Rightarrow> ('a \<Rightarrow> 'b io) \<Rightarrow> 'b io" where
  "io_bind m f w =
     (case m w of
        (Inl e, out, w') \<Rightarrow> (Inl e, out, w')
      | (Inr x, out, w') \<Rightarrow> (case f x w' of (r, out', w'') \<Rightarrow> (r, out @ out', w'')))"

text \<open>\<^verbatim>\<open>try: m except Exception as e: h(e)\<close>\<close>
definition try_except :: "'a io \<Rightarrow> (error \<Rightarrow> 'a io) \<Rightarrow> 'a io" where
  "try_except m h w =
     (case m w of
        (Inl e, out, w') \<Rightarrow> (case h e w' of (r, out', w'') \<Rightarrow> (r, out @ out', w''))
      | (Inr x, out, w') \<Rightarrow> (Inr x, out, w'))"

definition st_show :: "msg \<Rightarrow> unit io" where
  "st_show m w = (Inr (), [m], w)"

subsection \<open>The table client\<close>

text \<open>
  Modelled from the spec: the remote table client (the gspread worksheet methods
  \<^verbatim>\<open>worksheet\<close>, \<^verbatim>\<open>get_all_values\<close>, \<^verbatim>\<open>get_all_records\<close>, \<^verbatim>\<open>row_values\<close>,
  \<^verbatim>\<open>append_row\<close>, \<^verbatim>\<open>update_cell\<close>) is a library outside the repository. Section 4.1
  gives its contract: rows are listed in storage order as records from column name to
  string value, a row is appended at the end, cells are patched by row index, and every
  operation may fail with \<open>TransportError\<close>. A worksheet is the list of its rows as
  written, cells are text, a sheet without rows lists as the empty list, and a missing
  cell reads as the empty string.
\<close>

definition request :: "unit io" where
  "request w =
     (if quota w = 0 then (Inl TransportError, [], w)
      else (Inr (), [], w\<lparr>quota := quota w - 1\<rparr>))"

definition with_sheet :: "string \<Rightarrow> (worksheet \<Rightarrow> 'a io) \<Rightarrow> 'a io" where
  "with_sheet ws f =
     io_bind request (\<lambda>_ w.
       case sheets w ws of
         None \<Rightarrow> (Inl WorksheetNotFound, [], w)
       | Some rows \<Rightarrow> f rows w)"

text \<open>\<^verbatim>\<open>get_spreadsheet().worksheet(sheet_name)\<close>; the handle of a worksheet is its title.
  The spreadsheet handle of \<^verbatim>\<open>get_spreadsheet\<close> is cached once start-up has opened it, and
  a page handler runs only after start-up has completed, so the call is the one request for
  the worksheet.\<close>
definition get_worksheet :: "string \<Rightarrow> string io" where
  "get_worksheet sheet_name = with_sheet sheet_name (\<lambda>_. io_return sheet_name)"

definition pad :: "nat \<Rightarrow> row \<Rightarrow> row" where
  "pad n r = r @ replicate (n - length r) []"

definition to_record :: "row \<Rightarrow> row \<Rightarrow> pyrecord" where
  "to_record headers r = zip headers (pad (length headers) r)"

definition ws_get_all_values :: "string \<Rightarrow> worksheet io" where
  "ws_get_all_values ws = with_sheet ws io_return"

definition ws_get_all_records :: "string \<Rightarrow> pyrecord list io" where
  "ws_get_all_records ws =
     with_sheet ws (\<lambda>rows.
       case rows of
         [] \<Rightarrow> io_return []
       | headers # data \<Rightarrow>
           if distinct headers then io_return (map (to_record headers) data)
           else io_raise GSpreadException)"

definition ws_row_values :: "string \<Rightarrow> nat \<Rightarrow> row io" where
  "ws_row_values ws n =
     with_sheet ws (\<lambda>rows.
       if n = 0 then io_raise APIError
       else io_return (if n \<le> length rows then rows ! (n - 1) else []))"

definition put_sheet :: "string \<Rightarrow> worksheet \<Rightarrow> unit io" where
  "put_sheet ws rows w = (Inr (), [], w\<lparr>sheets := (sheets w)(ws \<mapsto> rows)\<rparr>)"

definition ws_append_row :: "string \<Rightarrow> row \<Rightarrow> unit io" where
  "ws_append_row ws vals = with_sheet ws (\<lambda>rows. put_sheet ws (rows @ [vals]))"

definition set_cell :: "worksheet \<Rightarrow> nat \<Rightarrow> nat \<Rightarrow> string \<Rightarrow> worksheet" where
  "set_cell rows i j v =
     (let rows' = rows @ replicate (Suc i - length rows) []
      in rows'[i := (pad (Suc j) (rows' ! i))[j := v]])"

text \<open>\<^verbatim>\<open>ws.update_cell(row, col, value)\<close>, rows and columns counted from 1.\<close>
definition ws_update_cell :: "string \<Rightarrow> nat \<Rightarrow> nat \<Rightarrow> string \<Rightarrow> unit io" where
  "ws_update_cell ws row_num col_num new_val =
     with_sheet ws (\<lambda>rows.
       if row_num = 0 \<or> col_num = 0 then io_raise APIError
       else put_sheet ws (set_cell rows (row_num - 1) (col_num - 1) new_val))"

subsection \<open>Read and write helpers\<close>

definition read_sheet :: "string \<Rightarrow> dataframe io" where
  "read_sheet sheet_name =
     try_except
       (io_bind (get_worksheet sheet_name) (\<lambda>ws.
        io_bind (ws_get_all_records ws) (\<lambda>data.
        io_return data)))
       (\<lambda>e. io_bind (st_show (ErrReading sheet_name e)) (\<lambda>_. io_return []))"


definition append_row :: "string \<Rightarrow> pyrecord \<Rightarrow> unit io" where
  "append_row sheet_name row =
     io_bind (get_worksheet sheet_name) (\<lambda>ws.
     io_bind (ws_get_all_values ws) (\<lambda>vals.
     io_bind (if vals = [] then ws_append_row ws (map fst row) else io_return ()) (\<lambda>_.
     ws_append_row ws (map snd row))))"

text \<open>\<^verbatim>\<open>str(record.get(id_col))\<close>: a key the record lacks gives \<^verbatim>\<open>None\<close>, whose text is
  \<^verbatim>\<open>'None'\<close>.\<close>
definition py_str :: "string option \<Rightarrow> string" where
  "py_str v = (case v of None \<Rightarrow> ''None'' | Some s \<Rightarrow> s)"

text \<open>\<^verbatim>\<open>headers.index(col_name)\<close>\<close>
fun index :: "string list \<Rightarrow> string \<Rightarrow> nat option" where
  "index [] c = None"
| "index (h # hs) c = (if h = c then Some 0 else map_option Suc (index hs c))"

text \<open>The loop over \<^verbatim>\<open>enumerate(records)\<close>: the sheet row of the first record whose
  key matches.\<close>
fun find_row :: "nat \<Rightarrow> pyrecord list \<Rightarrow> string \<Rightarrow> string \<Rightarrow> nat option" where
  "find_row i [] id_col id_val = None"
| "find_row i (record # rest) id_col id_val =
     (if py_str (map_of record id_col) = id_val then Some (i + 2)
      else find_row (Suc i) rest id_col id_val)"

text \<open>The loop over \<^verbatim>\<open>update_dict.items()\<close>.\<close>
fun update_cells :: "string \<Rightarrow> nat \<Rightarrow> row \<Rightarrow> pyrecord \<Rightarrow> unit io" where
  "update_cells ws row_num headers [] = io_return ()"
| "update_cells ws row_num headers ((col_name, new_val) # rest) =
     (if col_name \<in> set headers then
        (case index headers col_name of
           None \<Rightarrow> io_raise ValueError
         | Some k \<Rightarrow>
             io_bind (ws_update_cell ws row_num (k + 1) new_val) (\<lambda>_.
             update_cells ws row_num headers rest))
      else update_cells ws row_num headers rest)"

definition update_cell_by_id :: "string \<Rightarrow> string \<Rightarrow> string \<Rightarrow> pyrecord \<Rightarrow> unit io" where
  "update_cell_by_id sheet_name id_col id_val update_dict =
     io_bind (get_worksheet sheet_name) (\<lambda>ws.
     io_bind (ws_get_all_records ws) (\<lambda>records.
     io_bind (ws_row_values ws 1) (\<lambda>headers.
       case find_row 0 records id_col id_val of
         Some row_num \<Rightarrow> update_cells ws row_num headers update_dict
       | None \<Rightarrow> st_show (ErrIdNotFound id_val sheet_name))))"

subsection \<open>Start-up\<close>

definition Items_header :: row where
  "Items_header =
     [''item_id'', ''name'', ''category'', ''location'', ''status'', ''registered_by'',
      ''registered_at'', ''notes'']"

definition Usage_Log_header :: row where
  "Usage_Log_header =
     [''log_id'', ''item_id'', ''item_name'', ''technician'', ''action'', ''timestamp'',
      ''notes'']"

definition Reports_header :: row where
  "Reports_header =
     [''report_id'', ''submitted_by'', ''title'', ''description'', ''priority'', ''status'',
      ''assigned_to'', ''created_at'', ''updated_at'', ''resolution'']"

definition Users_header :: row where
  "Users_header = [''user_id'', ''name'', ''role'', ''email'']"

definition sheets_headers :: "(string \<times> row) list" where
  "sheets_headers =
     [(''Items'', Items_header), (''Usage_Log'', Usage_Log_header),
      (''Reports'', Reports_header), (''Users'', Users_header)]"

text \<open>The loop of \<^verbatim>\<open>init_sheet_headers\<close> over the spreadsheet \<^verbatim>\<open>sp\<close> it has opened; an
  exception inside one round is caught and shown as a warning.\<close>
fun init_loop :: "(string \<times> row) list \<Rightarrow> unit io" where
  "init_loop [] = io_return ()"
| "init_loop ((sheet_name, headers) # rest) =
     io_bind
       (try_except
          (io_bind (get_worksheet sheet_name) (\<lambda>ws.
           io_bind (ws_get_all_values ws) (\<lambda>vals.
           if vals = [] then ws_append_row ws headers else io_return ())))
          (\<lambda>e. st_show (WarnInit sheet_name e)))
       (\<lambda>_. init_loop rest)"

text \<open>
  \<^verbatim>\<open>get_spreadsheet()\<close> as start-up calls it: when no handle is cached yet it opens the
  spreadsheet, which may raise. \<open>opening\<close> is the exception that call raised, if it raised
  one.
\<close>
definition get_spreadsheet :: "error option \<Rightarrow> unit io" where
  "get_spreadsheet opening = (case opening of Some e \<Rightarrow> io_raise e | None \<Rightarrow> io_return ())"

text \<open>\<^verbatim>\<open>sp = get_spreadsheet()\<close> stands before the loop, outside its \<^verbatim>\<open>try\<close>.\<close>
definition init_sheet_headers :: "error option \<Rightarrow> unit io" where
  "init_sheet_headers opening =
     io_bind (get_spreadsheet opening) (\<lambda>sp. init_loop sheets_headers)"

text \<open>\<^verbatim>\<open>df.empty\<close>: no rows, or no columns.\<close>
definition df_empty :: "dataframe \<Rightarrow> bool" where
  "df_empty df = (df = [] \<or> list_all (\<lambda>r. r = []) df)"

definition demo_users :: "pyrecord list" where
  "demo_users =
     [[(''user_id'', ''U001''), (''name'', ''Ahmad Technician''), (''role'', ''technician''),
       (''email'', ''ahmad@tech.com'')],
      [(''user_id'', ''U002''), (''name'', ''Siti Technician''), (''role'', ''technician''),
       (''email'', ''siti@tech.com'')],
      [(''user_id'', ''U003''), (''name'', ''Ali User''), (''role'', ''user''),
       (''email'', ''ali@user.com'')],
      [(''user_id'', ''U004''), (''name'', ''Nurul User''), (''role'', ''user''),
       (''email'', ''nurul@user.com'')]]"

fun append_rows :: "string \<Rightarrow> pyrecord list \<Rightarrow> unit io" where
  "append_rows sheet_name [] = io_return ()"
| "append_rows sheet_name (user # rest) =
     io_bind (append_row sheet_name user) (\<lambda>_. append_rows sheet_name rest)"

definition seed_users :: "unit io" where
  "seed_users =
     io_bind (read_sheet ''Users'') (\<lambda>df.
     if df_empty df then append_rows ''Users'' demo_users else io_return ())"

subsection \<open>Page handlers\<close>

definition upper_char :: "char \<Rightarrow> char" where
  "upper_char c =
     (let n = (of_char c :: nat) in if 97 \<le> n \<and> n \<le> 122 then char_of (n - 32) else c)"

text \<open>\<^verbatim>\<open>str(uuid.uuid4())[:8].upper()\<close>, for the text \<open>uid\<close> of the drawn UUID.\<close>
definition short_id :: "string \<Rightarrow> string" where
  "short_id uid = map upper_char (take 8 uid)"

text \<open>
  The button of \<^verbatim>\<open>page_register_item\<close>. \<open>tech\<close> is the name of the session's user,
  \<open>uid\<close> the UUID drawn, \<open>now\<close> the formatted clock reading, and \<open>qr\<close> the exception the
  image library raised in \<^verbatim>\<open>generate_qr\<close>, if it raised one.
\<close>
definition register_click ::
  "string \<Rightarrow> string \<Rightarrow> string \<Rightarrow> string \<Rightarrow> string \<Rightarrow> string \<Rightarrow> string \<Rightarrow> error option
     \<Rightarrow> unit io" where
  "register_click name category location notes tech uid now qr =
     (if name = [] then st_show ErrNameRequired
      else
        (let item_id = ''ITM-'' @ short_id uid in
         io_bind (case qr of Some e \<Rightarrow> io_raise e | None \<Rightarrow> io_return ()) (\<lambda>_.
         io_bind
           (append_row ''Items''
              [(''item_id'', item_id), (''name'', name), (''category'', category),
               (''location'', location), (''status'', ''available''),
               (''registered_by'', tech), (''registered_at'', now), (''notes'', notes)])
           (\<lambda>_. st_show (OkItemSaved item_id)))))"

text \<open>\<^verbatim>\<open>items["item_id"].values\<close>\<close>
fun column :: "dataframe \<Rightarrow> string \<Rightarrow> error + string list" where
  "column [] c = Inr []"
| "column (r # rs) c =
     (case map_of r c of
        None \<Rightarrow> Inl KeyError
      | Some v \<Rightarrow> (case column rs c of Inl e \<Rightarrow> Inl e | Inr vs \<Rightarrow> Inr (v # vs)))"

text \<open>\<^verbatim>\<open>row[c]\<close>\<close>
definition getitem :: "pyrecord \<Rightarrow> string \<Rightarrow> string io" where
  "getitem r c = (case map_of r c of None \<Rightarrow> io_raise KeyError | Some v \<Rightarrow> io_return v)"

text \<open>
  \<^verbatim>\<open>do_action\<close> of \<^verbatim>\<open>page_scan_use\<close>. \<open>items\<close> is the frame the page read when it
  was drawn and \<open>tech\<close> the name of the session's user, both captured by the closure.
\<close>
definition do_action ::
  "dataframe \<Rightarrow> string \<Rightarrow> string \<Rightarrow> string \<Rightarrow> string \<Rightarrow> string \<Rightarrow> string \<Rightarrow> unit io" where
  "do_action items tech item_id action notes_val uid now =
     (if df_empty items then st_show (ErrItemNotFound item_id)
      else
        (case column items ''item_id'' of
           Inl e \<Rightarrow> io_raise e
         | Inr vals \<Rightarrow>
             if item_id \<notin> set vals then st_show (ErrItemNotFound item_id)
             else
               (case filter (\<lambda>r. map_of r ''item_id'' = Some item_id) items of
                  [] \<Rightarrow> io_raise IndexError
                | row # _ \<Rightarrow>
                    io_bind (getitem row ''status'') (\<lambda>current.
                    io_bind (getitem row ''name'') (\<lambda>item_name.
                    if action = ''use'' \<and> current \<noteq> ''available''
                    then st_show (ErrCannotCheckOut current)
                    else if action = ''return'' \<and> current \<noteq> ''in_use''
                    then st_show (ErrNotCheckedOut current)
                    else
                      (let new_status = (if action = ''use'' then ''in_use'' else ''available'') in
                       io_bind
                         (update_cell_by_id ''Items'' ''item_id'' item_id
                            [(''status'', new_status)]) (\<lambda>_.
                       io_bind
                         (append_row ''Usage_Log''
                            [(''log_id'', short_id uid), (''item_id'', item_id),
                             (''item_name'', item_name), (''technician'', tech),
                             (''action'', (if action = ''use'' then ''CHECK OUT'' else ''RETURN'')),
                             (''timestamp'', now), (''notes'', notes_val)]) (\<lambda>_.
                       st_show
                         (OkAction item_name
                            (if action = ''use'' then ''Checked OUT'' else ''Returned''))))))))))"

text \<open>One run of \<^verbatim>\<open>page_scan_use\<close> in which a button is pressed: the page reads the
  Items table, then calls \<^verbatim>\<open>do_action\<close>.\<close>
definition page_scan_use ::
  "string \<Rightarrow> string \<Rightarrow> string \<Rightarrow> string \<Rightarrow> string \<Rightarrow> string \<Rightarrow> unit io" where
  "page_scan_use tech item_id action notes_val uid now =
     io_bind (read_sheet ''Items'') (\<lambda>items.
     do_action items tech item_id action notes_val uid now)"

definition checkout :: "string \<Rightarrow> string \<Rightarrow> string \<Rightarrow> string \<Rightarrow> string \<Rightarrow> unit io" where
  "checkout tech item_id notes_val uid now = page_scan_use tech item_id ''use'' notes_val uid now"

definition return_item :: "string \<Rightarrow> string \<Rightarrow> string \<Rightarrow> string \<Rightarrow> string \<Rightarrow> unit io" where
  "return_item tech item_id notes_val uid now =
     page_scan_use tech item_id ''return'' notes_val uid now"

text \<open>The button of \<^verbatim>\<open>page_manage_reports\<close>, for the report \<open>sel_id\<close> chosen.\<close>
definition triage :: "string \<Rightarrow> string \<Rightarrow> string \<Rightarrow> string \<Rightarrow> string \<Rightarrow> unit io" where
  "triage sel_id new_status resolution tech now =
     io_bind
       (update_cell_by_id ''Reports'' ''report_id'' sel_id
          [(''status'', new_status), (''assigned_to'', tech), (''resolution'', resolution),
           (''updated_at'', now)])
       (\<lambda>_. st_show OkReportUpdated)"

text \<open>The button of \<^verbatim>\<open>page_submit_report\<close>; \<open>name\<close> is the session's user.\<close>
definition submit ::
  "string \<Rightarrow> string \<Rightarrow> string \<Rightarrow> string \<Rightarrow> string \<Rightarrow> string \<Rightarrow> unit io" where
  "submit name title description priority uid now =
     (if title = [] \<or> description = [] then st_show ErrTitleRequired
      else
        (let rep_id = ''RPT-'' @ short_id uid in
         io_bind
           (append_row ''Reports''
              [(''report_id'', rep_id), (''submitted_by'', name), (''title'', title),
               (''description'', description), (''priority'', priority), (''status'', ''open''),
               (''assigned_to'', []), (''created_at'', now), (''updated_at'', []),
               (''resolution'', [])])
           (\<lambda>_. st_show (OkReportSubmitted rep_id))))"

subsection \<open>QR code helpers\<close>




subsection \<open>Views of the remote state\<close>

text \<open>The records a table lists: the rows below the header, keyed by the header.\<close>
definition records_of :: "worksheet \<Rightarrow> pyrecord list" where
  "records_of rows = (case rows of [] \<Rightarrow> [] | headers # data \<Rightarrow> map (to_record headers) data)"

definition table :: "remote \<Rightarrow> string \<Rightarrow> worksheet" where
  "table w sheet_name = (case sheets w sheet_name of None \<Rightarrow> [] | Some rows \<Rightarrow> rows)"

definition find_record :: "remote \<Rightarrow> string \<Rightarrow> string \<Rightarrow> string \<Rightarrow> pyrecord option" where
  "find_record w sheet_name id_col id_val =
     find (\<lambda>r. map_of r id_col = Some id_val) (records_of (table w sheet_name))"

definition item_status :: "remote \<Rightarrow> string \<Rightarrow> string option" where
  "item_status w item_id =
     (case find_record w ''Items'' ''item_id'' item_id of
        None \<Rightarrow> None
      | Some r \<Rightarrow> map_of r ''status'')"

text \<open>The cell in row \<open>i\<close> and column \<open>j\<close> of a worksheet, both counted from 0; a cell
  never written is empty.\<close>
definition cell :: "worksheet \<Rightarrow> nat \<Rightarrow> nat \<Rightarrow> string" where
  "cell rows i j = (if i < length rows \<and> j < length (rows ! i) then rows ! i ! j else [])"

subsection \<open>Runs of the system\<close>

text \<open>The operations that reach the remote store: start-up, a table view, and the
  buttons of the pages.\<close>
datatype operation =
    InitSheetHeaders "error option"
  | SeedUsers
  | ReadSheet string
  | RegisterItem string string string string string string string "error option"
  | DoAction dataframe string string string string string string
  | Triage string string string string string
  | Submit string string string string string string

fun perform :: "operation \<Rightarrow> unit io" where
  "perform (InitSheetHeaders opening) = init_sheet_headers opening"
| "perform SeedUsers = seed_users"
| "perform (ReadSheet sheet_name) = io_bind (read_sheet sheet_name) (\<lambda>_. io_return ())"
| "perform (RegisterItem name category location notes tech uid now qr) =
     register_click name category location notes tech uid now qr"
| "perform (DoAction items tech item_id action notes_val uid now) =
     do_action items tech item_id action notes_val uid now"
| "perform (Triage sel_id new_status resolution tech now) =
     triage sel_id new_status resolution tech now"
| "perform (Submit name title description priority uid now) =
     submit name title description priority uid now"

text \<open>A run: the operations one after another; an exception ends its operation (the
  page shows it) and the next operation starts from the state left behind.\<close>
fun run :: "operation list \<Rightarrow> remote \<Rightarrow> remote" where
  "run [] w = w"
| "run (a # as) w = run as (snd (snd (perform a w)))"

text \<open>
  Two sessions pressing Check Out for the same item. Each run of the page is a read of
  the Items table followed by \<^verbatim>\<open>do_action\<close>; the remote requests of the two runs can
  interleave. \<open>one_after_other\<close> is the schedule where the second page run starts
  after the first has finished, \<open>both_read_first\<close> the one where both pages have read
  the table before either acts. Each gives the result and messages of the first
  session, those of the second, and the final remote state.
\<close>
definition one_after_other ::
  "unit io \<Rightarrow> unit io \<Rightarrow> remote
     \<Rightarrow> ((error + unit) \<times> msg list) \<times> ((error + unit) \<times> msg list) \<times> remote" where
  "one_after_other a b w =
     (case a w of (ra, oa, w1) \<Rightarrow>
      case b w1 of (rb, ob, w2) \<Rightarrow> ((ra, oa), (rb, ob), w2))"

definition both_read_first ::
  "dataframe io \<Rightarrow> (dataframe \<Rightarrow> unit io) \<Rightarrow> (dataframe \<Rightarrow> unit io) \<Rightarrow> remote
     \<Rightarrow> ((error + unit) \<times> msg list) \<times> ((error + unit) \<times> msg list) \<times> remote" where
  "both_read_first rd a b w =
     (case rd w of (ia, oa, w1) \<Rightarrow>
      case rd w1 of (ib, ob, w2) \<Rightarrow>
      case (case ia of Inl e \<Rightarrow> (Inl e, [], w2) | Inr items \<Rightarrow> a items w2) of (ra, oa', w3) \<Rightarrow>
      case (case ib of Inl e \<Rightarrow> (Inl e, [], w3) | Inr items \<Rightarrow> b items w3) of (rb, ob', w4) \<Rightarrow>
        ((ra, oa @ oa'), (rb, ob @ ob'), w4))"

subsection \<open>Reading the claims\<close>

definition header_row :: "worksheet \<Rightarrow> row" where
  "header_row rows = (case rows of [] \<Rightarrow> [] | headers # _ \<Rightarrow> headers)"

definition row_cell :: "row \<Rightarrow> nat \<Rightarrow> string" where
  "row_cell r j = (if j < length r then r ! j else [])"

text \<open>The text \<^verbatim>\<open>update_cell_by_id\<close> compares with the key value: the row's cell in the
  key column, and the text \<^verbatim>\<open>None\<close> when the header has no such column.\<close>
definition key_text :: "row \<Rightarrow> string \<Rightarrow> row \<Rightarrow> string" where
  "key_text headers id_col r =
     (case index headers id_col of None \<Rightarrow> ''None'' | Some k \<Rightarrow> row_cell r k)"

text \<open>The row's key column equals the key value: the header has the key column and the
  row's cell there is the key value.\<close>
definition key_equals :: "row \<Rightarrow> string \<Rightarrow> string \<Rightarrow> row \<Rightarrow> bool" where
  "key_equals headers id_col id_val r =
     (case index headers id_col of None \<Rightarrow> False | Some k \<Rightarrow> row_cell r k = id_val)"

text \<open>Row \<open>i\<close> of the sheet (the header is row 0) is the first data row that satisfies
  \<open>P\<close>.\<close>
definition first_row_where :: "(row \<Rightarrow> bool) \<Rightarrow> worksheet \<Rightarrow> nat \<Rightarrow> bool" where
  "first_row_where P rows i =
     (1 \<le> i \<and> i < length rows \<and> P (rows ! i) \<and> (\<forall>i' \<in> {1..<i}. \<not> P (rows ! i')))"

text \<open>What a patch of row \<open>i\<close> of table \<open>ws\<close> may change between two remote states: only cells
  of that row, in columns of \<open>hs\<close> named by \<open>keys\<close>; no other table, and no row is added or
  removed.\<close>
definition frame :: "string \<Rightarrow> nat \<Rightarrow> row \<Rightarrow> string set \<Rightarrow> remote \<Rightarrow> remote \<Rightarrow> bool" where
  "frame ws i hs keys w w' =
     ((\<forall>n. n \<noteq> ws \<longrightarrow> sheets w' n = sheets w n) \<and>
      (sheets w ws = None \<longrightarrow> sheets w' ws = None) \<and>
      (i < length (table w ws) \<longrightarrow>
        length (table w' ws) = length (table w ws) \<and>
        (\<forall>i' j. cell (table w' ws) i' j \<noteq> cell (table w ws) i' j \<longrightarrow>
            i' = i \<and> j < length hs \<and> hs ! j \<in> keys)))"

text \<open>The rows of the Usage_Log table.\<close>
definition usage_log :: "remote \<Rightarrow> worksheet" where
  "usage_log w = table w ''Usage_Log''"

text \<open>The log of \<open>w\<close> is an initial part of the log of \<open>w'\<close>.\<close>
definition grows :: "remote \<Rightarrow> remote \<Rightarrow> bool" where
  "grows w w' = prefix (usage_log w) (usage_log w')"

text \<open>Every run of \<open>m\<close> relates the state it starts from to the state it leaves by \<open>R\<close>.\<close>
definition preserves :: "(remote \<Rightarrow> remote \<Rightarrow> bool) \<Rightarrow> 'a io \<Rightarrow> bool" where
  "preserves R m = (\<forall>w r out w'. m w = (r, out, w') \<longrightarrow> R w w')"

text \<open>The record of a report as \<^verbatim>\<open>page_submit_report\<close> creates it.\<close>
definition new_report :: "string \<Rightarrow> string \<Rightarrow> string \<Rightarrow> string \<Rightarrow> string \<Rightarrow> string \<Rightarrow> pyrecord" where
  "new_report rep_id name title description priority now =
     [(''report_id'', rep_id), (''submitted_by'', name), (''title'', title),
      (''description'', description), (''priority'', priority), (''status'', ''open''),
      (''assigned_to'', []), (''created_at'', now), (''updated_at'', []), (''resolution'', [])]"


text \<open>The record \<^verbatim>\<open>do_action\<close> appends to the usage log.\<close>
definition log_row ::
  "string \<Rightarrow> string \<Rightarrow> string \<Rightarrow> string \<Rightarrow> string \<Rightarrow> string \<Rightarrow> string \<Rightarrow> pyrecord" where
  "log_row log_id item_id item_name tech action_text now notes_val =
     [(''log_id'', log_id), (''item_id'', item_id), (''item_name'', item_name),
      (''technician'', tech), (''action'', action_text), (''timestamp'', now),
      (''notes'', notes_val)]"

text \<open>The texts \<^verbatim>\<open>do_action\<close> derives from its action: the log's action, the item's new
  status, the label of the success message, and whether the current status refuses the
  action.\<close>
definition action_text :: "string \<Rightarrow> string" where
  "action_text action = (if action = ''use'' then ''CHECK OUT'' else ''RETURN'')"

definition new_status :: "string \<Rightarrow> string" where
  "new_status action = (if action = ''use'' then ''in_use'' else ''available'')"

definition label :: "string \<Rightarrow> string" where
  "label action = (if action = ''use'' then ''Checked OUT'' else ''Returned'')"

definition refused :: "string \<Rightarrow> string \<Rightarrow> bool" where
  "refused action current =
     (action = ''use'' \<and> current \<noteq> ''available'' \<or> action = ''return'' \<and> current \<noteq> ''in_use'')"

text \<open>From \<open>w\<close> to \<open>w'\<close> the usage log gained exactly the entry (after the header row, when
  the log had no row).\<close>
definition logged_once :: "remote \<Rightarrow> remote \<Rightarrow> row \<Rightarrow> bool" where
  "logged_once w w' entry =
     (usage_log w' = usage_log w @ (if usage_log w = [] then [Usage_Log_header] else []) @ [entry])"

text \<open>A row after \<^verbatim>\<open>update_cell\<close> wrote \<open>v\<close> into its column \<open>k\<close>.\<close>
definition patch_row :: "row \<Rightarrow> nat \<Rightarrow> string \<Rightarrow> row" where
  "patch_row r k v = (pad (Suc k) r)[k := v]"

text \<open>The Items table has a header row the client accepts, with the columns the scan page
  reads.\<close>
definition items_ok :: "remote \<Rightarrow> bool" where
  "items_ok w =
     (distinct (header_row (table w ''Items'')) \<and>
      ''item_id'' \<in> set (header_row (table w ''Items'')) \<and>
      ''status'' \<in> set (header_row (table w ''Items'')) \<and>
      ''name'' \<in> set (header_row (table w ''Items'')))"

text \<open>The name the Items table lists for an item.\<close>
definition listed_name :: "remote \<Rightarrow> string \<Rightarrow> string option" where
  "listed_name w item_id =
     (case find_record w ''Items'' ''item_id'' item_id of
        None \<Rightarrow> None
      | Some r \<Rightarrow> map_of r ''name'')"

text \<open>The Check Out button of a page that holds the frame \<open>items\<close>.\<close>
definition check_out_button ::
  "string \<Rightarrow> string \<Rightarrow> string \<Rightarrow> string \<Rightarrow> string \<Rightarrow> dataframe \<Rightarrow> unit io" where
  "check_out_button tech item_id notes_val uid now items =
     do_action items tech item_id ''use'' notes_val uid now"

text \<open>A remote state for the examples: two registered items, one of them checked out,
  no usage logged yet, and twenty requests left.\<close>
definition example_remote :: remote where
  "example_remote =
     \<lparr>sheets =
        [''Items'' \<mapsto>
           [Items_header,
            [''ITM-1A2B3C4D'', ''Multimeter'', ''Tools'', ''Rack A'', ''available'',
             ''Ahmad Technician'', ''2024-05-01 08:00'', []],
            [''ITM-5E6F7A8B'', ''Drill'', ''Tools'', ''Rack B'', ''in_use'',
             ''Siti Technician'', ''2024-05-01 08:10'', []]],
         ''Usage_Log'' \<mapsto> [],
         ''Reports'' \<mapsto> [Reports_header]],
      quota = 20\<rparr>"

text \<open>A remote state with one open report.\<close>
definition example_reports :: remote where
  "example_reports =
     \<lparr>sheets =
        [''Reports'' \<mapsto>
           [Reports_header,
            [''RPT-7A1B2C3D'', ''Ali User'', ''Line 3 down'', ''Conveyor stopped'', ''high'',
             ''open'', [], ''2024-05-01 09:30'', [], []]]],
      quota = 10\<rparr>"

section \<open>Properties\<close>

subsection \<open>Running computations\<close>

lemma io_bind_Inr: "m w = (Inr x, out, w') \<Longrightarrow> io_bind m f w = (case f x w' of (r, out', w'') \<Rightarrow> (r, out @ out', w''))"
  by (simp add: io_bind_def)

lemma io_bind_Inl: "m w = (Inl e, out, w') \<Longrightarrow> io_bind m f w = (Inl e, out, w')"
  by (simp add: io_bind_def)

lemma io_bind_cases:
  assumes "io_bind m f w = (r, out, w')"
  obtains (raised) e where "m w = (Inl e, out, w')" "r = Inl e"
  | (returned) x o1 w1 o2 where "m w = (Inr x, o1, w1)" "f x w1 = (r, o2, w')" "out = o1 @ o2"
  using assms by (auto simp: io_bind_def split: prod.splits sum.splits)

lemma with_sheet_unfold:
  "with_sheet ws f w =
     (if quota w = 0 then (Inl TransportError, [], w)
      else case sheets w ws of
             None \<Rightarrow> (Inl WorksheetNotFound, [], w\<lparr>quota := quota w - 1\<rparr>)
           | Some rows \<Rightarrow> f rows (w\<lparr>quota := quota w - 1\<rparr>))"
  by (auto simp: with_sheet_def io_bind_def request_def split: option.splits prod.splits sum.splits)

lemma get_worksheet_run:
  "sheets w n = Some rows \<Longrightarrow> 0 < quota w \<Longrightarrow> get_worksheet n w = (Inr n, [], w\<lparr>quota := quota w - 1\<rparr>)"
  by (simp add: get_worksheet_def with_sheet_unfold io_return_def)

lemma ws_get_all_values_run:
  "sheets w n = Some rows \<Longrightarrow> 0 < quota w \<Longrightarrow> ws_get_all_values n w = (Inr rows, [], w\<lparr>quota := quota w - 1\<rparr>)"
  by (simp add: ws_get_all_values_def with_sheet_unfold io_return_def)

lemma ws_append_row_run:
  "sheets w n = Some rows \<Longrightarrow> 0 < quota w \<Longrightarrow>
   ws_append_row n vals w = (Inr (), [], w\<lparr>sheets := (sheets w)(n \<mapsto> rows @ [vals]), quota := quota w - 1\<rparr>)"
  by (simp add: ws_append_row_def with_sheet_unfold put_sheet_def)

lemma ws_get_all_records_run:
  "sheets w n = Some rows \<Longrightarrow> 0 < quota w \<Longrightarrow> rows = [] \<or> distinct (hd rows) \<Longrightarrow>
   ws_get_all_records n w = (Inr (records_of rows), [], w\<lparr>quota := quota w - 1\<rparr>)"
  by (auto simp: ws_get_all_records_def with_sheet_unfold io_return_def records_of_def split: list.splits)

lemma append_row_run:
  assumes "sheets w n = Some rows" "(if rows = [] then 4 else 3) \<le> quota w"
  shows "append_row n row w =
     (Inr (), [], w\<lparr>sheets := (sheets w)(n \<mapsto> rows @ (if rows = [] then [map fst row] else []) @ [map snd row]),
                   quota := quota w - (if rows = [] then 4 else 3)\<rparr>)"
  using assms
  by (auto simp: append_row_def io_bind_def get_worksheet_run ws_get_all_values_run ws_append_row_run io_return_def split: if_splits)

lemma read_sheet_run:
  assumes "sheets w n = Some rows" "2 \<le> quota w" "rows = [] \<or> distinct (hd rows)"
  shows "read_sheet n w = (Inr (records_of rows), [], w\<lparr>quota := quota w - 2\<rparr>)"
  using assms
  by (auto simp: read_sheet_def try_except_def io_bind_def get_worksheet_run ws_get_all_records_run io_return_def)

lemma to_record_zip: "to_record (map fst row) (map snd row) = row"
  by (simp add: to_record_def pad_def zip_map_fst_snd)

lemma records_of_snoc:
  "rows \<noteq> [] \<Longrightarrow> records_of (rows @ [v]) = records_of rows @ [to_record (hd rows) v]"
  by (cases rows) (simp_all add: records_of_def)

subsection \<open>Appending to a table\<close>

text \<open>
  C9. Appending a record to a table that has no rows writes the record's keys as the
  first row and its values as the second, and a following \<^verbatim>\<open>read_sheet\<close> of the same
  table lists exactly that record. Appended to a table that has rows, the values become
  the last row and the record keyed by the table's header is the last one listed. (The
  six requests are those of the append and of the read.)
\<close>

theorem append_row_writes_headers_first:
  assumes "sheets w sheet_name = Some rows" and "distinct (map fst row)" and "6 \<le> quota w"
    and "append_row sheet_name row w = (r, out, w')"
  shows "r = Inr () \<and>
    (rows = [] \<longrightarrow>
       table w' sheet_name = [map fst row, map snd row] \<and>
       fst (read_sheet sheet_name w') = Inr [row]) \<and>
    (rows \<noteq> [] \<longrightarrow>
       table w' sheet_name = rows @ [map snd row] \<and>
       (distinct (hd rows) \<longrightarrow>
          fst (read_sheet sheet_name w') = Inr (records_of rows @ [to_record (hd rows) (map snd row)])))"
proof -
  let ?new = "rows @ (if rows = [] then [map fst row] else []) @ [map snd row]"
  have run: "append_row sheet_name row w =
     (Inr (), [], w\<lparr>sheets := (sheets w)(sheet_name \<mapsto> ?new),
                   quota := quota w - (if rows = [] then 4 else 3)\<rparr>)"
    using assms(1,3) by (intro append_row_run) auto
  with assms(4) have r: "r = Inr ()"
    and w': "w' = w\<lparr>sheets := (sheets w)(sheet_name \<mapsto> ?new),
                   quota := quota w - (if rows = [] then 4 else 3)\<rparr>"
    by simp_all
  have sh: "sheets w' sheet_name = Some ?new" and q: "2 \<le> quota w'"
    using assms(3) by (auto simp: w')
  have tab: "table w' sheet_name = ?new"
    by (simp add: table_def sh)
  have rd: "?new = [] \<or> distinct (hd ?new) \<Longrightarrow>
      fst (read_sheet sheet_name w') = Inr (records_of ?new)"
    using read_sheet_run [OF sh q] by simp
  show ?thesis
  proof (cases "rows = []")
    case True
    then have "fst (read_sheet sheet_name w') = Inr [row]"
      using rd assms(2) by (simp add: records_of_def to_record_zip)
    with True r tab show ?thesis by simp
  next
    case False
    then have "distinct (hd rows) \<Longrightarrow>
        fst (read_sheet sheet_name w') = Inr (records_of rows @ [to_record (hd rows) (map snd row)])"
      using rd by (simp add: records_of_snoc)
    with False r tab show ?thesis by simp
  qed
qed

theorem append_row_writes_headers_first_witness:
  "sheets \<lparr>sheets = [''Users'' \<mapsto> []], quota = 6\<rparr> ''Users'' = Some [] \<and>
   distinct (map fst [(''user_id'', ''U001''), (''name'', ''Ahmad'')]) \<and>
   (6::nat) \<le> quota \<lparr>sheets = [''Users'' \<mapsto> []], quota = 6\<rparr> \<and>
   (case append_row ''Users'' [(''user_id'', ''U001''), (''name'', ''Ahmad'')]
           \<lparr>sheets = [''Users'' \<mapsto> []], quota = 6\<rparr> of
      (r, out, w') \<Rightarrow>
        r = Inr () \<and>
        table w' ''Users'' = [[''user_id'', ''name''], [''U001'', ''Ahmad'']] \<and>
        fst (read_sheet ''Users'' w') = Inr [[(''user_id'', ''U001''), (''name'', ''Ahmad'')]])"
proof -
  let ?w = "\<lparr>sheets = [''Users'' \<mapsto> []], quota = 6\<rparr>"
  let ?row = "[(''user_id'', ''U001''), (''name'', ''Ahmad'')]"
  obtain r out w' where run: "append_row ''Users'' ?row ?w = (r, out, w')"
    by (cases "append_row ''Users'' ?row ?w") auto
  have h1: "sheets ?w ''Users'' = Some []" by simp
  have h2: "distinct (map fst ?row)" by simp
  have h3: "6 \<le> quota ?w" by simp
  show ?thesis
    using append_row_writes_headers_first [OF h1 h2 h3 run] run by simp
qed

subsection \<open>Records, keys and cells\<close>

lemma index_Some: "index hs c = Some k \<Longrightarrow> k < length hs \<and> hs ! k = c"
  by (induction hs arbitrary: k) (auto split: if_splits)

lemma index_None: "index hs c = None \<longleftrightarrow> c \<notin> set hs"
  by (induction hs) auto

lemma pad_Suc: "pad (Suc n) r = (case r of [] \<Rightarrow> [] # pad n [] | x # xs \<Rightarrow> x # pad n xs)"
  by (cases r) (simp_all add: pad_def)

lemma row_cell_Cons: "row_cell (x # xs) (Suc k) = row_cell xs k" "row_cell (x # xs) 0 = x"
  "row_cell [] k = []"
  by (simp_all add: row_cell_def)

lemma map_of_to_record:
  "map_of (to_record hs r) c = (case index hs c of None \<Rightarrow> None | Some k \<Rightarrow> Some (row_cell r k))"
proof (induction hs arbitrary: r)
  case Nil
  then show ?case by (simp add: to_record_def)
next
  case (Cons h hs)
  have step: "\<And>r'. map_of (zip hs (pad (length hs) r')) c =
      (case index hs c of None \<Rightarrow> None | Some k \<Rightarrow> Some (row_cell r' k))"
    using Cons.IH by (simp add: to_record_def)
  show ?case
    by (cases r) (auto simp: to_record_def pad_Suc step row_cell_Cons split: option.splits)
qed

lemma py_str_to_record: "py_str (map_of (to_record hs r) c) = key_text hs c r"
  by (simp add: map_of_to_record key_text_def py_str_def split: option.splits)

lemma find_row_Some:
  "find_row k (map (to_record hs) data) id_col id_val = Some n \<Longrightarrow>
   \<exists>m < length data. n = k + m + 2 \<and> key_text hs id_col (data ! m) = id_val \<and>
      (\<forall>m' < m. key_text hs id_col (data ! m') \<noteq> id_val)"
proof (induction data arbitrary: k)
  case Nil
  then show ?case by simp
next
  case (Cons r data)
  show ?case
  proof (cases "key_text hs id_col r = id_val")
    case True
    with Cons.prems have "n = k + 2" by (simp add: py_str_to_record)
    with True show ?thesis by (intro exI [of _ 0]) simp
  next
    case False
    with Cons.prems have "find_row (Suc k) (map (to_record hs) data) id_col id_val = Some n"
      by (simp add: py_str_to_record)
    from Cons.IH [OF this] obtain m where m: "m < length data" "n = Suc k + m + 2"
      "key_text hs id_col (data ! m) = id_val"
      "\<forall>m' < m. key_text hs id_col (data ! m') \<noteq> id_val" by blast
    have "\<forall>m' < Suc m. key_text hs id_col ((r # data) ! m') \<noteq> id_val"
      using False m(4) by (auto simp: less_Suc_eq_0_disj)
    with m show ?thesis by (intro exI [of _ "Suc m"]) simp
  qed
qed

lemma find_row_None:
  "find_row k (map (to_record hs) data) id_col id_val = None \<longleftrightarrow>
   (\<forall>r \<in> set data. key_text hs id_col r \<noteq> id_val)"
  by (induction data arbitrary: k) (auto simp: py_str_to_record)

lemma set_cell_length: "i < length rows \<Longrightarrow> length (set_cell rows i j v) = length rows"
  by (simp add: set_cell_def)

lemma set_cell_cell:
  "i < length rows \<Longrightarrow>
   cell (set_cell rows i j v) i' j' = (if i' = i \<and> j' = j then v else cell rows i' j')"
  by (auto simp: set_cell_def cell_def pad_def nth_list_update nth_append)

subsection \<open>The frame of a patch\<close>

lemma frame_refl: "sheets w' = sheets w \<Longrightarrow> frame ws i hs keys w w'"
  by (simp add: frame_def table_def)

lemma frame_trans: "frame ws i hs keys a b \<Longrightarrow> frame ws i hs keys b c \<Longrightarrow> frame ws i hs keys a c"
  unfolding frame_def by (intro conjI; metis)

lemma frame_mono: "frame ws i hs keys a b \<Longrightarrow> keys \<subseteq> keys' \<Longrightarrow> frame ws i hs keys' a b"
  unfolding frame_def by blast

lemma ws_update_cell_frame:
  assumes "ws_update_cell ws (Suc i) (Suc k) v w = (r, out, w')" "k < length hs" "hs ! k \<in> keys"
  shows "frame ws i hs keys w w' \<and> out = [] \<and> r \<in> {Inr (), Inl TransportError, Inl WorksheetNotFound}"
  using assms
  by (auto simp: ws_update_cell_def with_sheet_unfold put_sheet_def frame_def table_def
      set_cell_length set_cell_cell split: if_splits option.splits)

lemma update_cells_frame:
  assumes "update_cells ws (Suc i) hs ups w = (r, out, w')"
  shows "frame ws i hs (fst ` set ups) w w' \<and> out = [] \<and>
         r \<in> {Inr (), Inl TransportError, Inl WorksheetNotFound}"
  using assms
proof (induction ups arbitrary: w r out w')
  case Nil
  then show ?case by (simp add: io_return_def frame_refl)
next
  case (Cons u ups)
  obtain c v where u: "u = (c, v)" by (cases u)
  show ?case
  proof (cases "index hs c")
    case None
    then have "c \<notin> set hs" by (simp add: index_None)
    with Cons.prems u have "update_cells ws (Suc i) hs ups w = (r, out, w')" by simp
    from Cons.IH [OF this] show ?thesis
      by (auto intro: frame_mono)
  next
    case (Some k)
    then have k: "k < length hs" "hs ! k = c" by (simp_all add: index_Some)
    then have cin: "c \<in> set hs" by auto
    from Cons.prems u Some cin
    have run: "io_bind (ws_update_cell ws (Suc i) (Suc k) v) (\<lambda>_. update_cells ws (Suc i) hs ups) w
        = (r, out, w')" by simp
    have key: "hs ! k \<in> fst ` set (u # ups)" using k u by simp
    from run show ?thesis
    proof (cases rule: io_bind_cases)
      case (raised e)
      from ws_update_cell_frame [OF raised(1) k(1) key] raised(2) show ?thesis by simp
    next
      case (returned x o1 w1 o2)
      from ws_update_cell_frame [OF returned(1) k(1) key]
      have a: "frame ws i hs (fst ` set (u # ups)) w w1" "o1 = []" by simp_all
      from Cons.IH [OF returned(2)]
      have b: "frame ws i hs (fst ` set ups) w1 w'" "o2 = []"
        "r \<in> {Inr (), Inl TransportError, Inl WorksheetNotFound}" by simp_all
      have "frame ws i hs (fst ` set (u # ups)) w1 w'"
        using b(1) by (rule frame_mono) auto
      with a b returned(3) show ?thesis by (auto intro: frame_trans)
    qed
  qed
qed

subsection \<open>Updating a row by its key\<close>

lemma key_text_equals:
  "id_col \<in> set hs \<or> id_val \<noteq> ''None'' \<Longrightarrow>
   key_text hs id_col r = id_val \<longleftrightarrow> key_equals hs id_col id_val r"
  using index_None [of hs id_col]
  by (auto simp: key_text_def key_equals_def split: option.splits)

lemma first_row_where_cong:
  "(\<And>r. P r = Q r) \<Longrightarrow> first_row_where P rows i = first_row_where Q rows i"
  by (simp add: first_row_where_def)

lemma find_row_first:
  assumes "find_row 0 (map (to_record hs) data) id_col id_val = Some n"
  shows "\<exists>i. n = Suc i \<and> first_row_where (\<lambda>r. key_text hs id_col r = id_val) (hs # data) i"
proof -
  from find_row_Some [OF assms] obtain m where m: "m < length data" "n = m + 2"
    "key_text hs id_col (data ! m) = id_val"
    "\<forall>m' < m. key_text hs id_col (data ! m') \<noteq> id_val" by auto
  have "first_row_where (\<lambda>r. key_text hs id_col r = id_val) (hs # data) (Suc m)"
    unfolding first_row_where_def
  proof (intro conjI ballI)
    fix i' assume "i' \<in> {1..<Suc m}"
    then obtain m' where "i' = Suc m'" "m' < m" by (cases i') auto
    with m(4) show "key_text hs id_col ((hs # data) ! i') \<noteq> id_val" by simp
  qed (use m in simp_all)
  with m(2) show ?thesis by simp
qed

lemma update_cell_by_id_frame_aux:
  assumes run: "update_cell_by_id sheet_name id_col id_val update_dict w = (r, out, w')"
  shows "sheets w' = sheets w \<or>
    (\<exists>i. first_row_where (\<lambda>r. key_text (header_row (table w sheet_name)) id_col r = id_val)
            (table w sheet_name) i \<and>
         frame sheet_name i (header_row (table w sheet_name)) (fst ` set update_dict) w w')"
proof (cases "quota w = 0 \<or> sheets w sheet_name = None")
  case True
  with run show ?thesis
    by (auto simp: update_cell_by_id_def io_bind_def get_worksheet_def with_sheet_unfold
        split: option.splits if_splits)
next
  case False
  then obtain rows where rows: "sheets w sheet_name = Some rows" and q: "0 < quota w" by auto
  let ?w1 = "w\<lparr>quota := quota w - 1\<rparr>"
  have run1: "io_bind (ws_get_all_records sheet_name) (\<lambda>records.
     io_bind (ws_row_values sheet_name 1) (\<lambda>headers.
       case find_row 0 records id_col id_val of
         Some row_num \<Rightarrow> update_cells sheet_name row_num headers update_dict
       | None \<Rightarrow> st_show (ErrIdNotFound id_val sheet_name))) ?w1 = (r, out, w')"
    using run get_worksheet_run [OF rows q]
    by (simp add: update_cell_by_id_def io_bind_Inr split: prod.splits)
  show ?thesis
  proof (cases "quota ?w1 = 0 \<or> rows = [] \<or> \<not> distinct (hd rows)")
    case True
    with run1 rows show ?thesis
      by (cases rows)
        (auto simp: io_bind_def ws_get_all_records_def ws_row_values_def with_sheet_unfold
          io_return_def io_raise_def st_show_def split: if_splits)
  next
    case False
    then obtain hs data where hd: "rows = hs # data" "distinct hs" and q1: "0 < quota ?w1"
      by (cases rows) auto
    let ?w2 = "w\<lparr>quota := quota w - 2\<rparr>"
    have recs: "ws_get_all_records sheet_name ?w1 = (Inr (map (to_record hs) data), [], ?w2)"
      using rows hd q1
      by (simp add: ws_get_all_records_def with_sheet_unfold io_return_def)
    have run2: "io_bind (ws_row_values sheet_name 1) (\<lambda>headers.
       case find_row 0 (map (to_record hs) data) id_col id_val of
         Some row_num \<Rightarrow> update_cells sheet_name row_num headers update_dict
       | None \<Rightarrow> st_show (ErrIdNotFound id_val sheet_name)) ?w2 = (r, out, w')"
      using run1 recs by (simp add: io_bind_Inr split: prod.splits)
    show ?thesis
    proof (cases "quota ?w2 = 0")
      case True
      with run2 show ?thesis
        by (auto simp: io_bind_def ws_row_values_def with_sheet_unfold)
    next
      case False
      let ?w3 = "w\<lparr>quota := quota w - 3\<rparr>"
      have hdr: "ws_row_values sheet_name 1 ?w2 = (Inr hs, [], ?w3)"
        using False rows hd by (simp add: ws_row_values_def with_sheet_unfold io_return_def)
      have run3: "(case find_row 0 (map (to_record hs) data) id_col id_val of
         Some row_num \<Rightarrow> update_cells sheet_name row_num hs update_dict
       | None \<Rightarrow> st_show (ErrIdNotFound id_val sheet_name)) ?w3 = (r, out, w')"
        using run2 hdr by (simp add: io_bind_Inr split: prod.splits)
      show ?thesis
      proof (cases "find_row 0 (map (to_record hs) data) id_col id_val")
        case None
        with run3 show ?thesis by (auto simp: st_show_def)
      next
        case (Some n)
        from find_row_first [OF Some] obtain i where i: "n = Suc i"
          "first_row_where (\<lambda>r. key_text hs id_col r = id_val) (hs # data) i" by blast
        from run3 Some i have "update_cells sheet_name (Suc i) hs update_dict ?w3 = (r, out, w')"
          by simp
        from update_cells_frame [OF this]
        have "frame sheet_name i hs (fst ` set update_dict) ?w3 w'" by simp
        then have "frame sheet_name i hs (fst ` set update_dict) w w'"
          by (simp add: frame_def table_def)
        with i(2) rows hd show ?thesis
          by (auto simp: table_def header_row_def)
      qed
    qed
  qed
qed

text \<open>
  C10, as amended. Whatever \<^verbatim>\<open>update_cell_by_id\<close> returns or raises, it leaves every
  other table as it was, adds and removes no row, and a cell of the table that differs
  afterwards lies in the first data row whose key text equals the key value, in a
  column of the header row that is a key of the update mapping; keys of the mapping
  that the header lacks cause no write. The key text of a row is its cell in the key
  column, and the text \<^verbatim>\<open>None\<close> when the header has no key column. When the header has
  the key column, or the key value is not the text \<^verbatim>\<open>None\<close>, that row is the first
  one whose key column equals the key value.
\<close>

theorem update_cell_by_id_frame:
  assumes run: "update_cell_by_id sheet_name id_col id_val update_dict w = (r, out, w')"
  shows "(\<forall>n. n \<noteq> sheet_name \<longrightarrow> sheets w' n = sheets w n) \<and>
    length (table w' sheet_name) = length (table w sheet_name) \<and>
    (\<forall>i j. cell (table w' sheet_name) i j \<noteq> cell (table w sheet_name) i j \<longrightarrow>
       first_row_where (\<lambda>r. key_text (header_row (table w sheet_name)) id_col r = id_val)
         (table w sheet_name) i \<and>
       j < length (header_row (table w sheet_name)) \<and>
       header_row (table w sheet_name) ! j \<in> fst ` set update_dict) \<and>
    (id_col \<in> set (header_row (table w sheet_name)) \<or> id_val \<noteq> ''None'' \<longrightarrow>
       (\<forall>i j. cell (table w' sheet_name) i j \<noteq> cell (table w sheet_name) i j \<longrightarrow>
          first_row_where (key_equals (header_row (table w sheet_name)) id_col id_val)
            (table w sheet_name) i))"
proof -
  let ?T = "table w sheet_name"
  let ?H = "header_row ?T"
  let ?P = "\<lambda>r. key_text ?H id_col r = id_val"
  have main: "(\<forall>n. n \<noteq> sheet_name \<longrightarrow> sheets w' n = sheets w n) \<and>
    length (table w' sheet_name) = length ?T \<and>
    (\<forall>i j. cell (table w' sheet_name) i j \<noteq> cell ?T i j \<longrightarrow>
       first_row_where ?P ?T i \<and> j < length ?H \<and> ?H ! j \<in> fst ` set update_dict)"
  proof -
    from update_cell_by_id_frame_aux [OF run]
    consider "sheets w' = sheets w"
      | i where "first_row_where ?P ?T i" "frame sheet_name i ?H (fst ` set update_dict) w w'"
      by blast
    then show ?thesis
    proof cases
      case 1
      then show ?thesis by (simp add: table_def)
    next
      case 2
      from 2(1) have "i < length ?T" by (simp add: first_row_where_def)
      with 2 show ?thesis unfolding frame_def by blast
    qed
  qed
  have "first_row_where ?P ?T i = first_row_where (key_equals ?H id_col id_val) ?T i"
    if "id_col \<in> set ?H \<or> id_val \<noteq> ''None''" for i
    by (rule first_row_where_cong) (rule key_text_equals [OF that])
  with main show ?thesis by blast
qed

theorem update_cell_by_id_frame_witness:
  "(case update_cell_by_id ''Items'' ''item_id'' ''B'' [(''status'', ''in_use''), (''colour'', ''red'')]
      \<lparr>sheets = [''Items'' \<mapsto> [[''item_id'', ''status''], [''A'', ''available''], [''B'', ''available'']],
                 ''Usage_Log'' \<mapsto> []], quota = 4\<rparr> of
     (r, out, w') \<Rightarrow>
       r = Inr () \<and> out = [] \<and>
       sheets w' ''Usage_Log'' = Some [] \<and>
       length (table w' ''Items'') = 3 \<and>
       cell (table w' ''Items'') 1 1 = ''available'' \<and>
       cell (table w' ''Items'') 2 1 = ''in_use'')"
proof -
  let ?w = "\<lparr>sheets = [''Items'' \<mapsto> [[''item_id'', ''status''], [''A'', ''available''], [''B'', ''available'']],
                 ''Usage_Log'' \<mapsto> []], quota = 4\<rparr>"
  obtain r out w' where run:
    "update_cell_by_id ''Items'' ''item_id'' ''B'' [(''status'', ''in_use''), (''colour'', ''red'')] ?w
       = (r, out, w')"
    by (cases "update_cell_by_id ''Items'' ''item_id'' ''B'' [(''status'', ''in_use''), (''colour'', ''red'')] ?w")
      auto
  note fr = update_cell_by_id_frame [OF run]
  have T: "table ?w ''Items'' = [[''item_id'', ''status''], [''A'', ''available''], [''B'', ''available'']]"
    by (simp add: table_def)
  have a: "sheets w' ''Usage_Log'' = Some []" using fr by simp
  have b: "length (table w' ''Items'') = 3" using fr by (simp add: T)
  have "\<not> first_row_where (\<lambda>r. key_text (header_row (table ?w ''Items'')) ''item_id'' r = ''B'')
           (table ?w ''Items'') 1"
    by (simp add: T first_row_where_def key_text_def header_row_def row_cell_def)
  with fr have "cell (table w' ''Items'') 1 1 = cell (table ?w ''Items'') 1 1" by blast
  then have c: "cell (table w' ''Items'') 1 1 = ''available''" by (simp add: T cell_def)
  have d: "r = Inr () \<and> out = [] \<and> cell (table w' ''Items'') 2 1 = ''in_use''"
    using run
    by (auto simp: update_cell_by_id_def io_bind_def get_worksheet_def with_sheet_unfold
        ws_get_all_records_def ws_row_values_def ws_update_cell_def put_sheet_def io_return_def
        to_record_def pad_def py_str_def set_cell_def table_def cell_def)
  from a b c d run show ?thesis by simp
qed

text \<open>
  C10 as stated fails on a table without the key column: \<^verbatim>\<open>record.get(id_col)\<close> is
  \<^verbatim>\<open>None\<close> for every record, \<^verbatim>\<open>str(None)\<close> equals the key value \<^verbatim>\<open>'None'\<close>, and the
  first data row is patched although no row has the key value in a key column.
\<close>

theorem update_cell_by_id_missing_key_column_counterexample:
  "\<not> key_equals [''name''] ''item_id'' ''None'' [''x''] \<and>
   table \<lparr>sheets = [''Items'' \<mapsto> [[''name''], [''x'']]], quota = 4\<rparr> ''Items'' = [[''name''], [''x'']] \<and>
   table (snd (snd (update_cell_by_id ''Items'' ''item_id'' ''None'' [(''name'', ''y'')]
           \<lparr>sheets = [''Items'' \<mapsto> [[''name''], [''x'']]], quota = 4\<rparr>))) ''Items'' =
     [[''name''], [''y'']]"
  by (simp add: key_equals_def update_cell_by_id_def io_bind_def get_worksheet_def with_sheet_unfold
        ws_get_all_records_def ws_row_values_def ws_update_cell_def put_sheet_def io_return_def
        to_record_def pad_def py_str_def set_cell_def table_def)

subsection \<open>The usage log only grows\<close>

lemma preservesI: "(\<And>w r out w'. m w = (r, out, w') \<Longrightarrow> R w w') \<Longrightarrow> preserves R m"
  by (simp add: preserves_def)

lemma preservesD: "preserves R m \<Longrightarrow> m w = (r, out, w') \<Longrightarrow> R w w'"
  by (simp add: preserves_def)

lemma grows_refl: "sheets w' = sheets w \<Longrightarrow> grows w w'"
  by (simp add: grows_def usage_log_def table_def)

lemma grows_trans: "grows a b \<Longrightarrow> grows b c \<Longrightarrow> grows a c"
  unfolding grows_def by (rule prefix_order.order_trans)

lemma grows_other:
  "\<forall>n. n \<noteq> ws \<longrightarrow> sheets w' n = sheets w n \<Longrightarrow> ws \<noteq> ''Usage_Log'' \<Longrightarrow> grows w w'"
  by (simp add: grows_def usage_log_def table_def)

lemma preserves_bind:
  assumes "preserves grows m" "\<And>x. preserves grows (f x)"
  shows "preserves grows (io_bind m f)"
proof (rule preservesI)
  fix w r out w' assume "io_bind m f w = (r, out, w')"
  then show "grows w w'"
  proof (cases rule: io_bind_cases)
    case (raised e)
    then show ?thesis using assms(1) by (auto dest: preservesD)
  next
    case (returned x o1 w1 o2)
    then show ?thesis using assms by (blast intro: grows_trans dest: preservesD)
  qed
qed

lemma preserves_try:
  assumes "preserves grows m" "\<And>e. preserves grows (h e)"
  shows "preserves grows (try_except m h)"
proof (rule preservesI)
  fix w r out w' assume run: "try_except m h w = (r, out, w')"
  obtain r1 o1 w1 where m: "m w = (r1, o1, w1)" by (cases "m w") auto
  then have g1: "grows w w1" using assms(1) by (auto dest: preservesD)
  show "grows w w'"
  proof (cases r1)
    case (Inl e)
    obtain r2 o2 w2 where h: "h e w1 = (r2, o2, w2)" by (cases "h e w1") auto
    then have "grows w1 w2" using assms(2) by (auto dest: preservesD)
    moreover have "w' = w2" using run m Inl h by (simp add: try_except_def)
    ultimately show ?thesis using g1 by (blast intro: grows_trans)
  next
    case (Inr x)
    then have "w' = w1" using run m by (simp add: try_except_def)
    then show ?thesis using g1 by simp
  qed
qed

lemma preserves_return: "preserves grows (io_return x)"
  by (rule preservesI) (auto simp: io_return_def intro: grows_refl)

lemma preserves_raise: "preserves grows (io_raise e)"
  by (rule preservesI) (auto simp: io_raise_def intro: grows_refl)

lemma preserves_show: "preserves grows (st_show m)"
  by (rule preservesI) (auto simp: st_show_def intro: grows_refl)

lemma preserves_get_worksheet: "preserves grows (get_worksheet n)"
  by (rule preservesI)
    (auto simp: get_worksheet_def with_sheet_unfold io_return_def intro: grows_refl
      split: if_splits option.splits)

lemma preserves_get_all_values: "preserves grows (ws_get_all_values n)"
  by (rule preservesI)
    (auto simp: ws_get_all_values_def with_sheet_unfold io_return_def intro: grows_refl
      split: if_splits option.splits)

lemma preserves_get_all_records: "preserves grows (ws_get_all_records n)"
  by (rule preservesI)
    (auto simp: ws_get_all_records_def with_sheet_unfold io_return_def io_raise_def
      intro: grows_refl split: if_splits option.splits list.splits)

lemma preserves_append: "preserves grows (ws_append_row n vals)"
  by (rule preservesI)
    (auto simp: ws_append_row_def with_sheet_unfold put_sheet_def grows_def usage_log_def
      table_def split: if_splits option.splits)

lemma preserves_read_sheet: "preserves grows (read_sheet n)"
  unfolding read_sheet_def
  by (intro preserves_try preserves_bind preserves_get_worksheet preserves_get_all_records
      preserves_return preserves_show)

lemma preserves_append_row: "preserves grows (append_row n row)"
  unfolding append_row_def
  by (intro preserves_bind preserves_get_worksheet preserves_get_all_values)
    (auto intro: preserves_append preserves_return)

lemma preserves_append_rows: "preserves grows (append_rows n rs)"
  by (induction rs) (auto intro: preserves_return preserves_bind preserves_append_row)

lemma update_cell_by_id_others:
  assumes "update_cell_by_id sheet_name id_col id_val update_dict w = (r, out, w')"
    and "n \<noteq> sheet_name"
  shows "sheets w' n = sheets w n"
  using update_cell_by_id_frame_aux [OF assms(1)] assms(2) by (auto simp: frame_def)

lemma preserves_update:
  "sheet_name \<noteq> ''Usage_Log'' \<Longrightarrow>
   preserves grows (update_cell_by_id sheet_name id_col id_val update_dict)"
  by (rule preservesI) (auto intro!: grows_other [of sheet_name] dest: update_cell_by_id_others)

lemma preserves_init_loop: "preserves grows (init_loop xs)"
proof (induction xs)
  case Nil
  then show ?case by (simp add: preserves_return)
next
  case (Cons x xs)
  obtain n hs where x: "x = (n, hs)" by (cases x)
  show ?case
    unfolding x init_loop.simps
    by (intro preserves_bind preserves_try preserves_get_worksheet preserves_get_all_values
        preserves_show Cons.IH)
      (auto intro: preserves_append preserves_return)
qed

lemma preserves_getitem: "preserves grows (getitem r c)"
  by (auto simp: getitem_def intro: preserves_raise preserves_return split: option.splits)

lemma preserves_do_action:
  "preserves grows (do_action items tech item_id action notes_val uid now)"
  unfolding do_action_def Let_def
  by (auto split: sum.splits list.splits
      intro!: preserves_show preserves_raise preserves_bind preserves_getitem preserves_update
        preserves_append_row)

lemma preserves_perform: "preserves grows (perform a)"
proof (cases a)
  case (InitSheetHeaders opn)
  then show ?thesis
    by (auto simp: init_sheet_headers_def get_spreadsheet_def split: option.splits
        intro!: preserves_bind preserves_raise preserves_return preserves_init_loop)
next
  case SeedUsers
  then show ?thesis
    by (auto simp: seed_users_def
        intro!: preserves_bind preserves_read_sheet preserves_append_rows preserves_return)
next
  case (ReadSheet n)
  then show ?thesis by (auto intro!: preserves_bind preserves_read_sheet preserves_return)
next
  case (RegisterItem nm category location nts tech uid now qr)
  then show ?thesis
    by (auto simp: register_click_def Let_def split: option.splits
        intro!: preserves_bind preserves_show preserves_append_row preserves_raise preserves_return)
next
  case (DoAction items tech item_id action notes_val uid now)
  then show ?thesis by (simp add: preserves_do_action)
next
  case (Triage sel_id new_status resolution tech now)
  then show ?thesis
    by (auto simp: triage_def intro!: preserves_bind preserves_show preserves_update)
next
  case (Submit nm title description priority uid now)
  then show ?thesis
    by (auto simp: submit_def Let_def intro!: preserves_bind preserves_show preserves_append_row)
qed

text \<open>
  C8. Along every run of the system's operations (start-up, table views, registration,
  check out and return with any frame the page may hold, triage, report submission),
  from any remote state and with any operation failing at any request, the rows the
  Usage_Log table held before are still its first rows, unchanged and in the same
  order: rows are only ever added at the end.
\<close>

theorem usage_log_append_only:
  "prefix (usage_log w) (usage_log (run ops w))"
proof (induction ops arbitrary: w)
  case Nil
  then show ?case by simp
next
  case (Cons a ops)
  obtain r out w1 where step: "perform a w = (r, out, w1)" by (cases "perform a w") auto
  then have "grows w w1" using preserves_perform by (rule preservesD [rotated])
  moreover have "prefix (usage_log w1) (usage_log (run ops w1))" by (rule Cons.IH)
  ultimately show ?case using step by (auto simp: grows_def)
qed

subsection \<open>Submitting a report\<close>

lemma new_report_keys: "map fst (new_report rep_id name title description priority now) = Reports_header"
  by (simp add: new_report_def Reports_header_def)

text \<open>
  C7. With an empty title or an empty description the submit button shows the
  validation error and leaves the remote state as it was. Otherwise (the Reports table
  exists and the remote service answers the four requests of an append) it appends
  exactly one row to the Reports table, after the header row when the table had no row:
  the report with the new identifier, status \<^verbatim>\<open>open\<close>, \<^verbatim>\<open>assigned_to\<close>, \<^verbatim>\<open>updated_at\<close> and
  \<^verbatim>\<open>resolution\<close> empty and \<^verbatim>\<open>created_at\<close> the clock reading; it touches no other table and
  shows the new identifier in its success message.
\<close>

theorem submit_validates_and_creates:
  assumes "sheets w ''Reports'' = Some rows" and "4 \<le> quota w"
    and "submit name title description priority uid now w = (r, out, w')"
  shows "(title = [] \<or> description = [] \<longrightarrow>
            r = Inr () \<and> out = [ErrTitleRequired] \<and> w' = w) \<and>
         (title \<noteq> [] \<and> description \<noteq> [] \<longrightarrow>
            r = Inr () \<and> out = [OkReportSubmitted (''RPT-'' @ short_id uid)] \<and>
            (\<forall>n. n \<noteq> ''Reports'' \<longrightarrow> sheets w' n = sheets w n) \<and>
            table w' ''Reports'' =
              rows @ (if rows = [] then [Reports_header] else []) @
              [[''RPT-'' @ short_id uid, name, title, description, priority, ''open'', [], now, [], []]] \<and>
            (rows = [] \<or> header_row rows = Reports_header \<longrightarrow>
               records_of (table w' ''Reports'') =
                 records_of rows @
                 [new_report (''RPT-'' @ short_id uid) name title description priority now]))"
proof (cases "title = [] \<or> description = []")
  case True
  with assms(3) show ?thesis by (auto simp: submit_def st_show_def)
next
  case False
  let ?rec = "new_report (''RPT-'' @ short_id uid) name title description priority now"
  let ?new = "rows @ (if rows = [] then [map fst ?rec] else []) @ [map snd ?rec]"
  have q: "(if rows = [] then 4 else 3) \<le> quota w" using assms(2) by simp
  have sub: "submit name title description priority uid now w =
      io_bind (append_row ''Reports'' ?rec) (\<lambda>_. st_show (OkReportSubmitted (''RPT-'' @ short_id uid))) w"
    using False by (simp add: submit_def Let_def new_report_def)
  have res: "r = Inr ()" "out = [OkReportSubmitted (''RPT-'' @ short_id uid)]"
    "w' = w\<lparr>sheets := (sheets w)(''Reports'' \<mapsto> ?new),
            quota := quota w - (if rows = [] then 4 else 3)\<rparr>"
    using assms(3) append_row_run [OF assms(1) q, of ?rec] unfolding sub
    by (simp_all add: io_bind_def st_show_def)
  have tab: "table w' ''Reports'' = ?new" by (simp add: res(3) table_def)
  have recs: "records_of ?new = records_of rows @ [?rec]"
    if "rows = [] \<or> header_row rows = Reports_header"
  proof (cases rows)
    case Nil
    then show ?thesis by (simp add: records_of_def to_record_zip)
  next
    case (Cons h data)
    with that have "h = map fst ?rec" by (simp add: header_row_def new_report_keys)
    with Cons show ?thesis by (simp add: records_of_def to_record_zip)
  qed
  have vals: "map snd ?rec =
      [''RPT-'' @ short_id uid, name, title, description, priority, ''open'', [], now, [], []]"
    by (simp add: new_report_def)
  have others: "\<forall>n. n \<noteq> ''Reports'' \<longrightarrow> sheets w' n = sheets w n" by (simp add: res(3))
  have A: "table w' ''Reports'' =
      rows @ (if rows = [] then [Reports_header] else []) @
      [[''RPT-'' @ short_id uid, name, title, description, priority, ''open'', [], now, [], []]]"
    unfolding tab new_report_keys vals ..
  have B: "records_of (table w' ''Reports'') = records_of rows @ [?rec]"
    if "rows = [] \<or> header_row rows = Reports_header"
    unfolding tab using that by (rule recs)
  from False res(1,2) others A B show ?thesis by blast
qed


lemma short_id_example: "short_id ''3f2b9c1a-5d7e-4c1b-9a2f-0e6d8b7c4a11'' = ''3F2B9C1A''"
  by code_simp

theorem submit_validates_and_creates_witness:
  "(case submit ''Ali User'' [] ''Conveyor stopped'' ''high'' ''3f2b9c1a-5d7e-4c1b-9a2f-0e6d8b7c4a11''
           ''2024-05-01 09:30'' \<lparr>sheets = [''Reports'' \<mapsto> [Reports_header]], quota = 4\<rparr> of
      (r, out, w') \<Rightarrow>
        r = Inr () \<and> out = [ErrTitleRequired] \<and>
        w' = \<lparr>sheets = [''Reports'' \<mapsto> [Reports_header]], quota = 4\<rparr>) \<and>
   (case submit ''Ali User'' ''Line 3 down'' ''Conveyor stopped'' ''high''
           ''3f2b9c1a-5d7e-4c1b-9a2f-0e6d8b7c4a11'' ''2024-05-01 09:30''
           \<lparr>sheets = [''Reports'' \<mapsto> [Reports_header]], quota = 4\<rparr> of
      (r, out, w') \<Rightarrow>
        r = Inr () \<and> out = [OkReportSubmitted ''RPT-3F2B9C1A''] \<and>
        table w' ''Reports'' =
          [Reports_header,
           [''RPT-3F2B9C1A'', ''Ali User'', ''Line 3 down'', ''Conveyor stopped'', ''high'', ''open'',
            [], ''2024-05-01 09:30'', [], []]])"
proof -
  let ?w = "\<lparr>sheets = [''Reports'' \<mapsto> [Reports_header]], quota = 4\<rparr>"
  let ?uid = "''3f2b9c1a-5d7e-4c1b-9a2f-0e6d8b7c4a11''"
  have h1: "sheets ?w ''Reports'' = Some [Reports_header]" by simp
  have h2: "4 \<le> quota ?w" by simp
  obtain r1 o1 w1 where run1:
    "submit ''Ali User'' [] ''Conveyor stopped'' ''high'' ?uid ''2024-05-01 09:30'' ?w = (r1, o1, w1)"
    by (cases "submit ''Ali User'' [] ''Conveyor stopped'' ''high'' ?uid ''2024-05-01 09:30'' ?w") auto
  obtain r2 o2 w2 where run2:
    "submit ''Ali User'' ''Line 3 down'' ''Conveyor stopped'' ''high'' ?uid ''2024-05-01 09:30'' ?w
       = (r2, o2, w2)"
    by (cases "submit ''Ali User'' ''Line 3 down'' ''Conveyor stopped'' ''high'' ?uid ''2024-05-01 09:30'' ?w")
      auto
  have a: "r1 = Inr () \<and> o1 = [ErrTitleRequired] \<and> w1 = ?w"
    using submit_validates_and_creates [OF h1 h2 run1] by simp
  have b: "r2 = Inr () \<and> o2 = [OkReportSubmitted ''RPT-3F2B9C1A''] \<and>
      table w2 ''Reports'' =
          [Reports_header,
           [''RPT-3F2B9C1A'', ''Ali User'', ''Line 3 down'', ''Conveyor stopped'', ''high'', ''open'',
            [], ''2024-05-01 09:30'', [], []]]"
    using submit_validates_and_creates [OF h1 h2 run2] by (simp add: short_id_example)
  show ?thesis unfolding run1 run2 using a b by simp
qed

subsection \<open>Failures of the remote service\<close>

lemma ws_update_cell_run:
  "sheets w ws = Some rows \<Longrightarrow> 0 < quota w \<Longrightarrow>
   ws_update_cell ws (Suc i) (Suc k) v w =
     (Inr (), [], w\<lparr>sheets := (sheets w)(ws \<mapsto> set_cell rows i k v), quota := quota w - 1\<rparr>)"
  by (simp add: ws_update_cell_def with_sheet_unfold put_sheet_def)


lemma append_row_short:
  assumes "sheets w n = Some rows" "quota w < (if rows = [] then 4 else 3)"
  shows "fst (append_row n row w) = Inl TransportError"
  using assms
  by (auto simp: append_row_def io_bind_def get_worksheet_def ws_get_all_values_def
      ws_append_row_def with_sheet_unfold put_sheet_def io_return_def split: if_splits)

lemma find_row_Suc: "find_row k rs c v = Some n \<Longrightarrow> \<exists>i. n = Suc i"
  by (induction rs arbitrary: k) (auto split: if_splits)


lemma read_sheet_returns: "\<exists>df. fst (read_sheet n w) = Inr df"
  by (auto simp: read_sheet_def try_except_def io_bind_def get_worksheet_def
      ws_get_all_records_def with_sheet_unfold io_return_def io_raise_def st_show_def
      split: option.splits list.splits)











subsection \<open>Check out and return\<close>

lemma append_row_out: "append_row n row w = (r, out, w') \<Longrightarrow> out = []"
  by (auto simp: append_row_def io_bind_def get_worksheet_def ws_get_all_values_def
      ws_append_row_def with_sheet_unfold put_sheet_def io_return_def
      split: if_splits option.splits)

lemma get_worksheet_out: "get_worksheet n w = (r, out, w') \<Longrightarrow> out = [] \<and> sheets w' = sheets w"
  by (auto simp: get_worksheet_def with_sheet_unfold io_return_def split: if_splits option.splits)

lemma ws_get_all_records_out:
  "ws_get_all_records n w = (r, out, w') \<Longrightarrow> out = [] \<and> sheets w' = sheets w"
  by (auto simp: ws_get_all_records_def with_sheet_unfold io_return_def io_raise_def
      split: if_splits option.splits list.splits)

lemma ws_row_values_out:
  "ws_row_values n k w = (r, out, w') \<Longrightarrow> out = [] \<and> sheets w' = sheets w"
  by (auto simp: ws_row_values_def with_sheet_unfold io_return_def io_raise_def
      split: if_splits option.splits)

lemma append_row_missing: "sheets w n = None \<Longrightarrow> \<exists>e. fst (append_row n row w) = Inl e"
  by (simp add: append_row_def io_bind_def get_worksheet_def with_sheet_unfold)

lemma append_row_Inr:
  assumes "append_row n row w = (Inr x, out, w')"
  shows "\<exists>rows. sheets w n = Some rows \<and>
     sheets w' = (sheets w)(n \<mapsto> rows @ (if rows = [] then [map fst row] else []) @ [map snd row])"
proof -
  obtain rows where rows: "sheets w n = Some rows"
    using append_row_missing [of w n row] assms by (cases "sheets w n") auto
  have "\<not> quota w < (if rows = [] then 4 else 3)"
    using append_row_short [OF rows, of row] assms by auto
  then have "(if rows = [] then 4 else 3) \<le> quota w" by simp
  from append_row_run [OF rows this, of row] assms rows show ?thesis by auto
qed

lemma update_cell_by_id_out:
  assumes "update_cell_by_id n c v ups w = (r, out, w')"
  shows "out = [] \<or> (out = [ErrIdNotFound v n] \<and> r = Inr () \<and> sheets w' = sheets w)"
  using assms unfolding update_cell_by_id_def
proof (cases rule: io_bind_cases)
  case (raised e)
  then show ?thesis by (auto dest: get_worksheet_out)
next
  case (returned ws o1 w1 o2)
  then have o1: "o1 = []" "sheets w1 = sheets w" by (auto dest: get_worksheet_out)
  from returned(2) show ?thesis
  proof (cases rule: io_bind_cases)
    case (raised e)
    then show ?thesis using returned(3) o1 by (auto dest: ws_get_all_records_out)
  next
    case (returned records o3 w3 o4)
    then have o3: "o3 = []" "sheets w3 = sheets w1" by (auto dest: ws_get_all_records_out)
    from returned(2) show ?thesis
    proof (cases rule: io_bind_cases)
      case (raised e)
      then show ?thesis using \<open>out = o1 @ o2\<close> \<open>o2 = o3 @ o4\<close> o1 o3
        by (auto dest: ws_row_values_out)
    next
      case (returned headers o5 w5 o6)
      then have o5: "o5 = []" "sheets w5 = sheets w3" by (auto dest: ws_row_values_out)
      show ?thesis
      proof (cases "find_row 0 records c v")
        case None
        with returned(2) have "o6 = [ErrIdNotFound v n]" "r = Inr ()" "w' = w5"
          by (simp_all add: st_show_def)
        then show ?thesis
          using \<open>out = o1 @ o2\<close> \<open>o2 = o3 @ o4\<close> \<open>o4 = o5 @ o6\<close> o1 o3 o5 by simp
      next
        case (Some m)
        then obtain i where "m = Suc i" using find_row_Suc by blast
        with Some returned(2) have "update_cells ws (Suc i) headers ups w5 = (r, o6, w')" by simp
        from update_cells_frame [OF this] have "o6 = []" by simp
        then show ?thesis
          using \<open>out = o1 @ o2\<close> \<open>o2 = o3 @ o4\<close> \<open>o4 = o5 @ o6\<close> o1 o3 o5 by simp
      qed
    qed
  qed
qed

lemma io_bind_return: "io_bind (io_return x) f = f x"
  by (rule ext) (simp add: io_bind_def io_return_def split: prod.splits)

lemma io_bind_raise: "io_bind (io_raise e) f = io_raise e"
  by (rule ext) (simp add: io_bind_def io_raise_def)

lemma do_action_found:
  assumes "\<not> df_empty items" "column items ''item_id'' = Inr vals" "item_id \<in> set vals"
    "filter (\<lambda>r. map_of r ''item_id'' = Some item_id) items = row # rest"
    "map_of row ''status'' = Some current" "map_of row ''name'' = Some item_name"
  shows "do_action items tech item_id action notes_val uid now =
     (if action = ''use'' \<and> current \<noteq> ''available'' then st_show (ErrCannotCheckOut current)
      else if action = ''return'' \<and> current \<noteq> ''in_use'' then st_show (ErrNotCheckedOut current)
      else
        io_bind (update_cell_by_id ''Items'' ''item_id'' item_id [(''status'', new_status action)])
          (\<lambda>_. io_bind
             (append_row ''Usage_Log''
                (log_row (short_id uid) item_id item_name tech (action_text action) now notes_val))
             (\<lambda>_. st_show (OkAction item_name (label action)))))"
  using assms
  by (simp add: do_action_def getitem_def io_bind_return Let_def log_row_def action_text_def
      new_status_def label_def)

lemma do_action_ok:
  assumes run: "do_action items tech item_id action notes_val uid now w = (r, out, w')"
    and ok: "OkAction nm lbl \<in> set out"
  shows "\<exists>row rest current o1 w1 vals.
      \<not> df_empty items \<and> column items ''item_id'' = Inr vals \<and> item_id \<in> set vals \<and>
      filter (\<lambda>r. map_of r ''item_id'' = Some item_id) items = row # rest \<and>
      map_of row ''status'' = Some current \<and> map_of row ''name'' = Some nm \<and>
      \<not> refused action current \<and>
      update_cell_by_id ''Items'' ''item_id'' item_id [(''status'', new_status action)] w
        = (Inr (), o1, w1) \<and>
      append_row ''Usage_Log''
        (log_row (short_id uid) item_id nm tech (action_text action) now notes_val) w1
        = (Inr (), [], w') \<and>
      r = Inr () \<and> lbl = label action \<and> out = o1 @ [OkAction nm lbl]"
proof -
  have ne: "\<not> df_empty items"
  proof
    assume "df_empty items"
    with run have "out = [ErrItemNotFound item_id]" by (auto simp: do_action_def st_show_def)
    with ok show False by simp
  qed
  obtain vals where vals: "column items ''item_id'' = Inr vals"
  proof (cases "column items ''item_id''")
    case (Inl e)
    with run ne have "out = []" by (auto simp: do_action_def io_raise_def)
    with ok show ?thesis by simp
  qed
  have mem: "item_id \<in> set vals"
  proof (rule ccontr)
    assume "item_id \<notin> set vals"
    with run ne vals have "out = [ErrItemNotFound item_id]"
      by (auto simp: do_action_def st_show_def)
    with ok show False by simp
  qed
  obtain row rest where row: "filter (\<lambda>r. map_of r ''item_id'' = Some item_id) items = row # rest"
  proof (cases "filter (\<lambda>r. map_of r ''item_id'' = Some item_id) items")
    case Nil
    with run ne vals mem have "out = []" by (auto simp: do_action_def io_raise_def)
    with ok show ?thesis by simp
  qed
  obtain current where cur: "map_of row ''status'' = Some current"
  proof (cases "map_of row ''status''")
    case None
    with run ne vals mem row have "out = []"
      by (auto simp: do_action_def getitem_def io_bind_raise io_raise_def)
    with ok show ?thesis by simp
  qed
  obtain item_name where nam: "map_of row ''name'' = Some item_name"
  proof (cases "map_of row ''name''")
    case None
    with run ne vals mem row cur have "out = []"
      by (auto simp: do_action_def getitem_def io_bind_raise io_bind_return io_raise_def)
    with ok show ?thesis by simp
  qed
  note unf = do_action_found [OF ne vals mem row cur nam]
  have nref: "\<not> refused action current"
    using run ok unfolding unf refused_def by (auto simp: st_show_def split: if_splits)
  then have tail: "io_bind (update_cell_by_id ''Items'' ''item_id'' item_id [(''status'', new_status action)])
          (\<lambda>_. io_bind
             (append_row ''Usage_Log''
                (log_row (short_id uid) item_id item_name tech (action_text action) now notes_val))
             (\<lambda>_. st_show (OkAction item_name (label action)))) w = (r, out, w')"
    using run unfolding unf refused_def by (simp split: if_splits)
  from tail show ?thesis
  proof (cases rule: io_bind_cases)
    case (raised e)
    with ok show ?thesis by (auto dest: update_cell_by_id_out)
  next
    case (returned x o1 w1 o2)
    from returned(2) show ?thesis
    proof (cases rule: io_bind_cases)
      case (raised e)
      then have "o2 = []" by (auto dest: append_row_out)
      with ok returned(1,3) show ?thesis by (auto dest: update_cell_by_id_out)
    next
      case inner: (returned y o3 w3 o4)
      have o3: "o3 = []" using inner(1) by (rule append_row_out)
      have fin: "r = Inr ()" "o4 = [OkAction item_name (label action)]" "w' = w3"
        using inner(2) by (simp_all add: st_show_def)
      have "OkAction nm lbl \<in> set o1 \<or> OkAction nm lbl = OkAction item_name (label action)"
        using ok returned(3) inner(3) o3 fin by auto
      then have eq: "nm = item_name" "lbl = label action"
        using returned(1) by (auto dest: update_cell_by_id_out)
      show ?thesis
        using ne vals mem row cur nam nref returned(1) inner(1) o3 fin eq returned(3) inner(3)
        by auto
    qed
  qed
qed

lemma read_sheet_result:
  assumes "read_sheet n w = (r, out, w1)"
  shows "sheets w1 = sheets w \<and> (\<forall>nm lbl. OkAction nm lbl \<notin> set out) \<and>
         (r = Inr [] \<or> (r = Inr (records_of (table w n)) \<and> out = [] \<and> 2 \<le> quota w \<and>
            w1 = w\<lparr>quota := quota w - 2\<rparr> \<and> distinct (header_row (table w n))))"
proof (cases "sheets w n")
  case None
  with assms show ?thesis
    by (auto simp: read_sheet_def try_except_def io_bind_def get_worksheet_def
        with_sheet_unfold st_show_def io_return_def split: if_splits)
next
  case (Some rows)
  show ?thesis
  proof (cases "2 \<le> quota w \<and> (rows = [] \<or> distinct (hd rows))")
    case True
    then have "read_sheet n w = (Inr (records_of rows), [], w\<lparr>quota := quota w - 2\<rparr>)"
      using Some by (intro read_sheet_run) auto
    with assms Some True show ?thesis
      by (cases rows) (auto simp: table_def header_row_def)
  next
    case False
    with assms Some show ?thesis
      by (cases rows)
        (auto simp: read_sheet_def try_except_def io_bind_def get_worksheet_def
          ws_get_all_records_def with_sheet_unfold st_show_def io_return_def io_raise_def
          split: if_splits)
  qed
qed

lemma find_filter_Cons:
  "filter P xs = x # rest \<Longrightarrow> find P xs = Some x"
  by (induction xs) (auto split: if_splits)

lemma find_None_filter: "find P xs = None \<longleftrightarrow> filter P xs = []"
  by (induction xs) auto

lemma df_empty_Nil: "df_empty []"
  by (simp add: df_empty_def)

lemma do_action_empty:
  "df_empty items \<Longrightarrow>
   do_action items tech item_id action notes_val uid now = st_show (ErrItemNotFound item_id)"
  by (simp add: do_action_def)

lemma map_of_to_record_Some:
  "c \<in> set hs \<Longrightarrow> map_of (to_record hs r) c = Some (key_text hs c r)"
  using index_None [of hs c]
  by (auto simp: map_of_to_record key_text_def split: option.splits)

lemma column_records:
  "c \<in> set hs \<Longrightarrow> column (map (to_record hs) data) c = Inr (map (key_text hs c) data)"
  by (induction data) (simp_all add: map_of_to_record_Some)

lemma df_empty_records:
  "c \<in> set hs \<Longrightarrow> df_empty (map (to_record hs) data) \<longleftrightarrow> data = []"
proof -
  assume c: "c \<in> set hs"
  have "to_record hs r \<noteq> []" for r
    using map_of_to_record_Some [OF c, of r] by auto
  then show ?thesis by (cases data) (auto simp: df_empty_def)
qed

lemma log_row_keys: "map fst (log_row a b c d e f g) = Usage_Log_header"
  by (simp add: log_row_def Usage_Log_header_def)

lemma log_row_vals: "map snd (log_row a b c d e f g) = [a, b, c, d, e, f, g]"
  by (simp add: log_row_def)

lemma page_scan_use_ok:
  assumes run: "page_scan_use tech item_id action notes_val uid now w = (r, out, w')"
    and ok: "OkAction nm lbl \<in> set out"
  shows "\<exists>rec current.
      find_record w ''Items'' ''item_id'' item_id = Some rec \<and>
      map_of rec ''status'' = Some current \<and> map_of rec ''name'' = Some nm \<and>
      \<not> refused action current \<and> r = Inr () \<and>
      logged_once w w' [short_id uid, item_id, nm, tech, action_text action, now, notes_val]"
  using run unfolding page_scan_use_def
proof (cases rule: io_bind_cases)
  case (raised e)
  then show ?thesis using read_sheet_result [of "''Items''" w "Inl e" out w'] by simp
next
  case (returned items o1 w1 o2)
  note rd = read_sheet_result [OF returned(1)]
  have ok2: "OkAction nm lbl \<in> set o2" using ok returned(3) rd by auto
  from do_action_ok [OF returned(2) ok2]
  obtain row rest current o3 w3 vals where d:
    "\<not> df_empty items"
    "filter (\<lambda>r. map_of r ''item_id'' = Some item_id) items = row # rest"
    "map_of row ''status'' = Some current" "map_of row ''name'' = Some nm"
    "\<not> refused action current"
    "update_cell_by_id ''Items'' ''item_id'' item_id [(''status'', new_status action)] w1
        = (Inr (), o3, w3)"
    "append_row ''Usage_Log''
        (log_row (short_id uid) item_id nm tech (action_text action) now notes_val) w3
        = (Inr (), [], w')"
    "r = Inr ()"
    by blast
  have "items \<noteq> []" using d(1) by (auto simp: df_empty_def)
  then have items: "items = records_of (table w ''Items'')" using rd by auto
  have fr: "find_record w ''Items'' ''item_id'' item_id = Some row"
    unfolding find_record_def items [symmetric] using d(2) by (rule find_filter_Cons)
  have "sheets w3 ''Usage_Log'' = sheets w1 ''Usage_Log''"
    using d(6) by (rule update_cell_by_id_others) simp
  then have same: "sheets w3 ''Usage_Log'' = sheets w ''Usage_Log''" using rd by simp
  from append_row_Inr [OF d(7)] obtain rows where rows: "sheets w3 ''Usage_Log'' = Some rows"
    "sheets w' = (sheets w3)(''Usage_Log'' \<mapsto>
        rows @ (if rows = [] then [Usage_Log_header] else []) @
        [[short_id uid, item_id, nm, tech, action_text action, now, notes_val]])"
    by (auto simp: log_row_keys log_row_vals)
  have "logged_once w w' [short_id uid, item_id, nm, tech, action_text action, now, notes_val]"
    using rows same by (simp add: logged_once_def usage_log_def table_def)
  with fr d(3,4,5,8) show ?thesis by blast
qed

lemma set_cell_Cons:
  "m < length data \<Longrightarrow> set_cell (h # data) (Suc m) k v = h # data[m := patch_row (data ! m) k v]"
  by (simp add: set_cell_def patch_row_def)

lemma row_cell_patch: "row_cell (patch_row r k v) j = (if j = k then v else row_cell r j)"
  by (auto simp: patch_row_def row_cell_def pad_def nth_append)

lemma key_text_patch:
  "index h c = Some kc \<Longrightarrow>
   key_text h c (patch_row r k v) = (if kc = k then v else key_text h c r)"
  by (simp add: key_text_def row_cell_patch)

lemma index_distinct:
  "index h c = Some k \<Longrightarrow> index h c' = Some k \<Longrightarrow> c = c'"
  by (auto dest!: index_Some)

lemma find_row_first_index:
  assumes "m < length data" "key_text h c (data ! m) = v"
    "\<forall>m' < m. key_text h c (data ! m') \<noteq> v"
  shows "find_row k (map (to_record h) data) c v = Some (k + m + 2)"
  using assms
proof (induction data arbitrary: k m)
  case Nil
  then show ?case by simp
next
  case (Cons r data)
  show ?case
  proof (cases m)
    case 0
    with Cons.prems show ?thesis by (simp add: py_str_to_record)
  next
    case (Suc m0)
    have "key_text h c r \<noteq> v" using Cons.prems(3) Suc by auto
    moreover have "find_row (Suc k) (map (to_record h) data) c v = Some (Suc k + m0 + 2)"
      using Cons.prems Suc by (intro Cons.IH) auto
    ultimately show ?thesis using Suc by (simp add: py_str_to_record)
  qed
qed

lemma find_records_first_index:
  assumes "c \<in> set h" "m < length data" "key_text h c (data ! m) = v"
    "\<forall>m' < m. key_text h c (data ! m') \<noteq> v"
  shows "\<exists>rest. filter (\<lambda>r. map_of r c = Some v) (map (to_record h) data)
            = to_record h (data ! m) # rest"
  using assms(2-)
proof (induction data arbitrary: m)
  case Nil
  then show ?case by simp
next
  case (Cons r data)
  show ?case
  proof (cases m)
    case 0
    with Cons.prems show ?thesis by (simp add: map_of_to_record_Some [OF assms(1)])
  next
    case (Suc m0)
    have "key_text h c r \<noteq> v" using Cons.prems(3) Suc by auto
    moreover have "\<exists>rest. filter (\<lambda>r. map_of r c = Some v) (map (to_record h) data)
            = to_record h (data ! m0) # rest"
      using Cons.prems Suc by (intro Cons.IH) auto
    ultimately show ?thesis using Suc by (simp add: map_of_to_record_Some [OF assms(1)])
  qed
qed

lemma update_cell_by_id_one_run:
  assumes "sheets w n = Some (h # data)" "distinct h" "index h c = Some k"
    and "m < length data" "key_text h id_col (data ! m) = id_val"
    "\<forall>m' < m. key_text h id_col (data ! m') \<noteq> id_val"
    and "4 \<le> quota w"
  shows "update_cell_by_id n id_col id_val [(c, v)] w =
     (Inr (), [],
      w\<lparr>sheets := (sheets w)(n \<mapsto> h # data[m := patch_row (data ! m) k v]),
        quota := quota w - 4\<rparr>)"
proof -
  have c: "c \<in> set h" using assms(3) index_None [of h c] by auto
  have fr: "find_row 0 (map (to_record h) data) id_col id_val = Some (Suc (Suc m))"
    using find_row_first_index [OF assms(4-6), of 0] by simp
  let ?w1 = "w\<lparr>quota := quota w - 1\<rparr>"
  let ?w2 = "w\<lparr>quota := quota w - 2\<rparr>"
  let ?w3 = "w\<lparr>quota := quota w - 3\<rparr>"
  have s1: "get_worksheet n w = (Inr n, [], ?w1)"
    using assms(1,7) by (intro get_worksheet_run) auto
  have s2: "ws_get_all_records n ?w1 = (Inr (map (to_record h) data), [], ?w2)"
    using assms(1,2,7) by (simp add: ws_get_all_records_def with_sheet_unfold io_return_def)
  have s3: "ws_row_values n 1 ?w2 = (Inr h, [], ?w3)"
    using assms(1,7) by (simp add: ws_row_values_def with_sheet_unfold io_return_def)
  have s4: "ws_update_cell n (Suc (Suc m)) (Suc k) v ?w3 =
      (Inr (), [], w\<lparr>sheets := (sheets w)(n \<mapsto> h # data[m := patch_row (data ! m) k v]),
        quota := quota w - 4\<rparr>)"
    using assms(1,4,7) ws_update_cell_run [of ?w3 n "h # data" "Suc m" k v]
    by (simp add: set_cell_Cons)
  show ?thesis
    using s1 s2 s3 s4
    by (simp add: update_cell_by_id_def io_bind_def fr c assms(3) io_return_def)
qed

lemma index_mem: "index h c = Some k \<Longrightarrow> c \<in> set h"
  using index_None [of h c] by auto

lemma do_action_run:
  assumes sheet: "sheets w ''Items'' = Some (h # data)" "distinct h"
    and cols: "''item_id'' \<in> set h" "index h ''status'' = Some ks" "''name'' \<in> set h"
    and snap: "ms < length snap" "key_text h ''item_id'' (snap ! ms) = item_id"
      "\<forall>m' < ms. key_text h ''item_id'' (snap ! m') \<noteq> item_id"
    and cur: "\<not> refused action (key_text h ''status'' (snap ! ms))"
    and live: "m < length data" "key_text h ''item_id'' (data ! m) = item_id"
      "\<forall>m' < m. key_text h ''item_id'' (data ! m') \<noteq> item_id"
    and lg: "sheets w ''Usage_Log'' = Some lg"
    and q: "8 \<le> quota w"
  shows "do_action (map (to_record h) snap) tech item_id action notes_val uid now w =
     (Inr (), [OkAction (key_text h ''name'' (snap ! ms)) (label action)],
      w\<lparr>sheets := (sheets w)
           (''Items'' \<mapsto> h # data[m := patch_row (data ! m) ks (new_status action)],
            ''Usage_Log'' \<mapsto> lg @ (if lg = [] then [Usage_Log_header] else []) @
               [[short_id uid, item_id, key_text h ''name'' (snap ! ms), tech,
                 action_text action, now, notes_val]]),
         quota := quota w - (if lg = [] then 8 else 7)\<rparr>)"
proof -
  let ?items = "map (to_record h) snap"
  let ?row = "to_record h (snap ! ms)"
  let ?nm = "key_text h ''name'' (snap ! ms)"
  let ?cur = "key_text h ''status'' (snap ! ms)"
  let ?rec = "log_row (short_id uid) item_id ?nm tech (action_text action) now notes_val"
  have st: "''status'' \<in> set h" using cols(2) by (rule index_mem)
  have ne: "\<not> df_empty ?items"
    using snap(1) by (auto simp: df_empty_records [OF cols(1)])
  have col: "column ?items ''item_id'' = Inr (map (key_text h ''item_id'') snap)"
    by (rule column_records [OF cols(1)])
  have mem: "item_id \<in> set (map (key_text h ''item_id'') snap)"
    using snap(1,2) nth_mem [OF snap(1)] by (auto simp: image_iff intro!: bexI [of _ "snap ! ms"])
  obtain rest where flt: "filter (\<lambda>r. map_of r ''item_id'' = Some item_id) ?items = ?row # rest"
    using find_records_first_index [OF cols(1) snap] by blast
  have c1: "map_of ?row ''status'' = Some ?cur" by (rule map_of_to_record_Some [OF st])
  have c2: "map_of ?row ''name'' = Some ?nm" by (rule map_of_to_record_Some [OF cols(3)])
  note unf = do_action_found [OF ne col mem flt c1 c2]
  let ?w1 = "w\<lparr>sheets := (sheets w)
       (''Items'' \<mapsto> h # data[m := patch_row (data ! m) ks (new_status action)]),
       quota := quota w - 4\<rparr>"
  have u: "update_cell_by_id ''Items'' ''item_id'' item_id [(''status'', new_status action)] w
      = (Inr (), [], ?w1)"
    using q by (intro update_cell_by_id_one_run [OF sheet cols(2) live]) simp
  have l1: "sheets ?w1 ''Usage_Log'' = Some lg" using lg by simp
  have q1: "(if lg = [] then 4 else 3) \<le> quota ?w1" using q by auto
  have a: "append_row ''Usage_Log'' ?rec ?w1 =
      (Inr (), [], ?w1\<lparr>sheets := (sheets ?w1)(''Usage_Log'' \<mapsto>
          lg @ (if lg = [] then [map fst ?rec] else []) @ [map snd ?rec]),
        quota := quota ?w1 - (if lg = [] then 4 else 3)\<rparr>)"
    by (rule append_row_run [OF l1 q1])
  have nref: "\<not> (action = ''use'' \<and> ?cur \<noteq> ''available'')"
    "\<not> (action = ''return'' \<and> ?cur \<noteq> ''in_use'')"
    using cur by (auto simp: refused_def)
  show ?thesis
    unfolding unf using nref u a
    by (auto simp: io_bind_def st_show_def log_row_keys log_row_vals)
qed

lemma items_okD:
  assumes "items_ok w"
  obtains h data where "sheets w ''Items'' = Some (h # data)" "distinct h"
    "''item_id'' \<in> set h" "''status'' \<in> set h" "''name'' \<in> set h"
proof -
  from assms have "table w ''Items'' \<noteq> []"
    by (auto simp: items_ok_def header_row_def)
  then obtain h data where "table w ''Items'' = h # data" by (cases "table w ''Items''") auto
  moreover from this have "sheets w ''Items'' = Some (h # data)"
    by (auto simp: table_def split: option.splits)
  ultimately show ?thesis using assms that by (auto simp: items_ok_def header_row_def)
qed

lemma find_record_first:
  assumes "sheets w n = Some (h # data)" "c \<in> set h"
    "m < length data" "key_text h c (data ! m) = v" "\<forall>m' < m. key_text h c (data ! m') \<noteq> v"
  shows "find_record w n c v = Some (to_record h (data ! m))"
proof -
  obtain rest where "filter (\<lambda>r. map_of r c = Some v) (map (to_record h) data)
      = to_record h (data ! m) # rest"
    using find_records_first_index [OF assms(2-5)] by blast
  then have "find (\<lambda>r. map_of r c = Some v) (map (to_record h) data) = Some (to_record h (data ! m))"
    by (rule find_filter_Cons)
  then show ?thesis using assms(1) by (simp add: find_record_def table_def records_of_def)
qed

lemma find_record_None:
  assumes "sheets w n = Some (h # data)" "c \<in> set h"
  shows "find_record w n c v = None \<longleftrightarrow> (\<forall>r \<in> set data. key_text h c r \<noteq> v)"
  using assms
  by (auto simp: find_record_def table_def records_of_def find_None_iff
      map_of_to_record_Some)

lemma first_match_exists:
  assumes "\<exists>r \<in> set data. P r"
  shows "\<exists>m < length data. P (data ! m) \<and> (\<forall>m' < m. \<not> P (data ! m'))"
proof -
  from assms obtain x where "find P data = Some x" by (cases "find P data") (auto simp: find_None_iff)
  then show ?thesis by (auto simp: find_Some_iff)
qed

lemma item_status_first:
  assumes "sheets w ''Items'' = Some (h # data)" "''item_id'' \<in> set h" "''status'' \<in> set h"
    "m < length data" "key_text h ''item_id'' (data ! m) = item_id"
    "\<forall>m' < m. key_text h ''item_id'' (data ! m') \<noteq> item_id"
  shows "item_status w item_id = Some (key_text h ''status'' (data ! m))"
  using find_record_first [OF assms(1,2,4,5,6)]
  by (simp add: item_status_def map_of_to_record_Some [OF assms(3)])

lemma item_status_Some:
  assumes "sheets w ''Items'' = Some (h # data)" "''item_id'' \<in> set h" "''status'' \<in> set h"
    "item_status w item_id = Some s"
  obtains m where "m < length data" "key_text h ''item_id'' (data ! m) = item_id"
    "\<forall>m' < m. key_text h ''item_id'' (data ! m') \<noteq> item_id"
    "key_text h ''status'' (data ! m) = s"
proof -
  have "find_record w ''Items'' ''item_id'' item_id \<noteq> None"
    using assms(4) by (auto simp: item_status_def split: option.splits)
  then have "\<exists>r \<in> set data. key_text h ''item_id'' r = item_id"
    using find_record_None [OF assms(1,2), of item_id] by auto
  from first_match_exists [OF this] obtain m where m: "m < length data"
    "key_text h ''item_id'' (data ! m) = item_id"
    "\<forall>m' < m. key_text h ''item_id'' (data ! m') \<noteq> item_id" by blast
  from item_status_first [OF assms(1-3) m] assms(4)
  have "key_text h ''status'' (data ! m) = s" by simp
  with m that show ?thesis by blast
qed

lemma do_action_unknown:
  assumes "''item_id'' \<in> set h" "\<forall>r \<in> set snap. key_text h ''item_id'' r \<noteq> item_id"
  shows "do_action (map (to_record h) snap) tech item_id action notes_val uid now
           = st_show (ErrItemNotFound item_id)"
proof (cases "snap = []")
  case True
  then show ?thesis by (simp add: do_action_empty df_empty_Nil)
next
  case False
  then have "\<not> df_empty (map (to_record h) snap)" by (simp add: df_empty_records [OF assms(1)])
  moreover have "item_id \<notin> set (map (key_text h ''item_id'') snap)" using assms(2) by auto
  ultimately show ?thesis
    by (simp add: do_action_def column_records [OF assms(1)] del: set_map)
qed

lemma do_action_refused:
  assumes cols: "''item_id'' \<in> set h" "''status'' \<in> set h" "''name'' \<in> set h"
    and snap: "ms < length snap" "key_text h ''item_id'' (snap ! ms) = item_id"
      "\<forall>m' < ms. key_text h ''item_id'' (snap ! m') \<noteq> item_id"
    and cur: "refused action (key_text h ''status'' (snap ! ms))"
  shows "do_action (map (to_record h) snap) tech item_id action notes_val uid now =
     st_show (if action = ''use'' then ErrCannotCheckOut (key_text h ''status'' (snap ! ms))
              else ErrNotCheckedOut (key_text h ''status'' (snap ! ms)))"
proof -
  let ?items = "map (to_record h) snap"
  let ?row = "to_record h (snap ! ms)"
  have ne: "\<not> df_empty ?items"
    using snap(1) by (auto simp: df_empty_records [OF cols(1)])
  have col: "column ?items ''item_id'' = Inr (map (key_text h ''item_id'') snap)"
    by (rule column_records [OF cols(1)])
  have mem: "item_id \<in> set (map (key_text h ''item_id'') snap)"
    using snap(1,2) nth_mem [OF snap(1)] by (auto simp: image_iff intro!: bexI [of _ "snap ! ms"])
  obtain rest where flt: "filter (\<lambda>r. map_of r ''item_id'' = Some item_id) ?items = ?row # rest"
    using find_records_first_index [OF cols(1) snap] by blast
  have c1: "map_of ?row ''status'' = Some (key_text h ''status'' (snap ! ms))"
    by (rule map_of_to_record_Some [OF cols(2)])
  have c2: "map_of ?row ''name'' = Some (key_text h ''name'' (snap ! ms))"
    by (rule map_of_to_record_Some [OF cols(3)])
  show ?thesis
    unfolding do_action_found [OF ne col mem flt c1 c2] using cur
    by (auto simp: refused_def)
qed

lemma page_scan_use_unknown:
  assumes run: "page_scan_use tech item_id action notes_val uid now w = (r, out, w')"
    and ok: "items_ok w" and none: "find_record w ''Items'' ''item_id'' item_id = None"
  shows "r = Inr () \<and> ErrItemNotFound item_id \<in> set out \<and>
         (\<forall>a b. OkAction a b \<notin> set out) \<and> sheets w' = sheets w"
proof -
  from ok obtain h data where hd: "sheets w ''Items'' = Some (h # data)" "distinct h"
    "''item_id'' \<in> set h" "''status'' \<in> set h" "''name'' \<in> set h" by (rule items_okD)
  have nomatch: "\<forall>r \<in> set data. key_text h ''item_id'' r \<noteq> item_id"
    using none find_record_None [OF hd(1,3), of item_id] by simp
  have nomatch0: "\<forall>r \<in> set []. key_text h ''item_id'' r \<noteq> item_id" by simp
  from run show ?thesis unfolding page_scan_use_def
  proof (cases rule: io_bind_cases)
    case (raised e)
    then show ?thesis using read_sheet_result [of "''Items''" w "Inl e" out w'] by simp
  next
    case (returned items o1 w1 o2)
    note rd = read_sheet_result [OF returned(1)]
    have "items = map (to_record h) [] \<or> items = map (to_record h) data"
      using rd hd(1) by (auto simp: table_def records_of_def)
    then have "do_action items tech item_id action notes_val uid now
        = st_show (ErrItemNotFound item_id)"
      using do_action_unknown [OF hd(3) nomatch] do_action_unknown [OF hd(3) nomatch0] by auto
    with returned(2) have "r = Inr ()" "o2 = [ErrItemNotFound item_id]" "w' = w1"
      by (simp_all add: st_show_def)
    with returned(3) rd show ?thesis by auto
  qed
qed

lemma page_scan_use_refused:
  assumes run: "page_scan_use tech item_id action notes_val uid now w = (r, out, w')"
    and ok: "items_ok w" and q: "2 \<le> quota w"
    and st: "item_status w item_id = Some s" and ref: "refused action s"
  shows "r = Inr () \<and>
         out = [if action = ''use'' then ErrCannotCheckOut s else ErrNotCheckedOut s] \<and>
         sheets w' = sheets w"
proof -
  from ok obtain h data where hd: "sheets w ''Items'' = Some (h # data)" "distinct h"
    "''item_id'' \<in> set h" "''status'' \<in> set h" "''name'' \<in> set h" by (rule items_okD)
  from item_status_Some [OF hd(1,3,4) st] obtain m where m: "m < length data"
    "key_text h ''item_id'' (data ! m) = item_id"
    "\<forall>m' < m. key_text h ''item_id'' (data ! m') \<noteq> item_id"
    "key_text h ''status'' (data ! m) = s" by blast
  have rd: "read_sheet ''Items'' w = (Inr (map (to_record h) data), [], w\<lparr>quota := quota w - 2\<rparr>)"
    using read_sheet_run [OF hd(1) q] hd(2) by (simp add: records_of_def)
  have da: "do_action (map (to_record h) data) tech item_id action notes_val uid now =
      st_show (if action = ''use'' then ErrCannotCheckOut s else ErrNotCheckedOut s)"
    using do_action_refused [OF hd(3,4,5) m(1,2,3)] ref m(4) by simp
  show ?thesis
    using run rd by (auto simp: page_scan_use_def io_bind_def da st_show_def)
qed

lemma index_of_mem: "c \<in> set h \<Longrightarrow> \<exists>k. index h c = Some k"
  using index_None [of h c] by (cases "index h c") auto

lemma key_text_patch_other:
  assumes "c \<in> set h" "index h c' = Some k" "c \<noteq> c'"
  shows "key_text h c (patch_row r k v) = key_text h c r"
proof -
  from assms(1) obtain kc where kc: "index h c = Some kc" using index_of_mem by blast
  with assms(2,3) have "kc \<noteq> k" using index_distinct by blast
  with kc show ?thesis by (simp add: key_text_patch)
qed

lemma key_text_patch_same:
  "index h c = Some k \<Longrightarrow> key_text h c (patch_row r k v) = v"
  by (simp add: key_text_patch)

lemma first_match_patched:
  assumes "c \<in> set h" "index h c' = Some k" "c \<noteq> c'"
    and "m < length data" "key_text h c (data ! m) = x"
    "\<forall>m' < m. key_text h c (data ! m') \<noteq> x"
  shows "m < length (data[m := patch_row (data ! m) k v])"
    "key_text h c (data[m := patch_row (data ! m) k v] ! m) = x"
    "\<forall>m' < m. key_text h c (data[m := patch_row (data ! m) k v] ! m') \<noteq> x"
    "key_text h c' (data[m := patch_row (data ! m) k v] ! m) = v"
  using assms(4-6)
  by (simp_all add: key_text_patch_other [OF assms(1-3)] key_text_patch_same [OF assms(2)])

lemma page_scan_use_run:
  assumes sheet: "sheets w ''Items'' = Some (h # data)" "distinct h"
    and cols: "''item_id'' \<in> set h" "index h ''status'' = Some ks" "''name'' \<in> set h"
    and m: "m < length data" "key_text h ''item_id'' (data ! m) = item_id"
      "\<forall>m' < m. key_text h ''item_id'' (data ! m') \<noteq> item_id"
    and cur: "\<not> refused action (key_text h ''status'' (data ! m))"
    and lg: "sheets w ''Usage_Log'' = Some lg"
    and q: "10 \<le> quota w"
  shows "page_scan_use tech item_id action notes_val uid now w =
     (Inr (), [OkAction (key_text h ''name'' (data ! m)) (label action)],
      w\<lparr>sheets := (sheets w)
           (''Items'' \<mapsto> h # data[m := patch_row (data ! m) ks (new_status action)],
            ''Usage_Log'' \<mapsto> lg @ (if lg = [] then [Usage_Log_header] else []) @
               [[short_id uid, item_id, key_text h ''name'' (data ! m), tech,
                 action_text action, now, notes_val]]),
         quota := quota w - (if lg = [] then 10 else 9)\<rparr>)"
proof -
  let ?w1 = "w\<lparr>quota := quota w - 2\<rparr>"
  have rd: "read_sheet ''Items'' w = (Inr (map (to_record h) data), [], ?w1)"
    using read_sheet_run [OF sheet(1)] sheet(2) q by (simp add: records_of_def)
  have s1: "sheets ?w1 ''Items'' = Some (h # data)" using sheet(1) by simp
  have l1: "sheets ?w1 ''Usage_Log'' = Some lg" using lg by simp
  have q1: "8 \<le> quota ?w1" using q by simp
  note da = do_action_run [OF s1 sheet(2) cols m cur m l1 q1,
      where tech = tech and notes_val = notes_val and uid = uid and now = now]
  show ?thesis
    unfolding page_scan_use_def using rd da q
    by (auto simp: io_bind_def)
qed

subsection \<open>Two sessions checking out one item\<close>

lemma item_views_cong:
  "sheets a = sheets b \<Longrightarrow>
   item_status a x = item_status b x \<and> listed_name a x = listed_name b x \<and> usage_log a = usage_log b \<and>
   items_ok a = items_ok b"
  by (simp add: item_status_def listed_name_def usage_log_def items_ok_def find_record_def table_def)

lemma listed_name_first:
  assumes "sheets w ''Items'' = Some (h # data)" "''item_id'' \<in> set h" "''name'' \<in> set h"
    "m < length data" "key_text h ''item_id'' (data ! m) = item_id"
    "\<forall>m' < m. key_text h ''item_id'' (data ! m') \<noteq> item_id"
  shows "listed_name w item_id = Some (key_text h ''name'' (data ! m))"
  using find_record_first [OF assms(1,2,4,5,6)]
  by (simp add: listed_name_def map_of_to_record_Some [OF assms(3)])

lemma available_item:
  assumes ok: "items_ok w" and st: "item_status w item_id = Some s"
    and nm: "listed_name w item_id = Some nm"
  obtains h data ks m where "sheets w ''Items'' = Some (h # data)" "distinct h"
    "''item_id'' \<in> set h" "index h ''status'' = Some ks" "''name'' \<in> set h"
    "m < length data" "key_text h ''item_id'' (data ! m) = item_id"
    "\<forall>m' < m. key_text h ''item_id'' (data ! m') \<noteq> item_id"
    "key_text h ''status'' (data ! m) = s" "key_text h ''name'' (data ! m) = nm"
proof -
  from ok obtain h data where hd: "sheets w ''Items'' = Some (h # data)" "distinct h"
    "''item_id'' \<in> set h" "''status'' \<in> set h" "''name'' \<in> set h" by (rule items_okD)
  obtain ks where ks: "index h ''status'' = Some ks" using hd(4) index_of_mem by blast
  from item_status_Some [OF hd(1,3,4) st] obtain m where m: "m < length data"
    "key_text h ''item_id'' (data ! m) = item_id"
    "\<forall>m' < m. key_text h ''item_id'' (data ! m') \<noteq> item_id"
    "key_text h ''status'' (data ! m) = s" by blast
  have "key_text h ''name'' (data ! m) = nm"
    using listed_name_first [OF hd(1,3,5) m(1-3)] nm by simp
  with hd ks m that show ?thesis by blast
qed

lemma checkouts_one_after_other:
  assumes ok: "items_ok w" and st: "item_status w item_id = Some ''available''"
    and nm: "listed_name w item_id = Some nm"
    and lg: "sheets w ''Usage_Log'' = Some lg" and q: "12 \<le> quota w"
  shows "\<exists>w'. one_after_other (checkout techA item_id notesA uidA nowA)
              (checkout techB item_id notesB uidB nowB) w =
            ((Inr (), [OkAction nm ''Checked OUT'']),
             (Inr (), [ErrCannotCheckOut ''in_use'']), w') \<and>
          item_status w' item_id = Some ''in_use'' \<and>
          usage_log w' = lg @ (if lg = [] then [Usage_Log_header] else []) @
             [[short_id uidA, item_id, nm, techA, ''CHECK OUT'', nowA, notesA]]"
proof -
  from available_item [OF ok st nm] obtain h data ks m where
    hd: "sheets w ''Items'' = Some (h # data)" "distinct h"
    and cols: "''item_id'' \<in> set h" "index h ''status'' = Some ks" "''name'' \<in> set h"
    and m: "m < length data" "key_text h ''item_id'' (data ! m) = item_id"
      "\<forall>m' < m. key_text h ''item_id'' (data ! m') \<noteq> item_id"
    and cur: "key_text h ''status'' (data ! m) = ''available''"
      "key_text h ''name'' (data ! m) = nm" by blast
  have nref: "\<not> refused ''use'' (key_text h ''status'' (data ! m))"
    by (simp add: cur refused_def)
  have q10: "10 \<le> quota w" using q by simp
  let ?data' = "data[m := patch_row (data ! m) ks ''in_use'']"
  let ?lg' = "lg @ (if lg = [] then [Usage_Log_header] else []) @
      [[short_id uidA, item_id, nm, techA, ''CHECK OUT'', nowA, notesA]]"
  let ?wa = "w\<lparr>sheets := (sheets w)(''Items'' \<mapsto> h # ?data', ''Usage_Log'' \<mapsto> ?lg'),
      quota := quota w - (if lg = [] then 10 else 9)\<rparr>"
  have runA: "checkout techA item_id notesA uidA nowA w =
      (Inr (), [OkAction nm ''Checked OUT''], ?wa)"
    using page_scan_use_run [OF hd cols m nref lg q10,
        where tech = techA and notes_val = notesA and uid = uidA and now = nowA]
    by (simp add: checkout_def cur label_def new_status_def action_text_def)
  have sa: "sheets ?wa ''Items'' = Some (h # ?data')" by simp
  note fm = first_match_patched [OF cols(1,2) _ m, of "''in_use''"]
  have st': "''status'' \<in> set h" using cols(2) by (rule index_mem)
  have sta: "item_status ?wa item_id = Some ''in_use''"
    using item_status_first [OF sa cols(1) st' fm(1) fm(2) fm(3)] fm(4) by simp
  have oka: "items_ok ?wa"
    using ok hd(1) by (simp add: items_ok_def table_def header_row_def)
  have qa: "2 \<le> quota ?wa" using q by auto
  obtain rb ob wb where runB: "checkout techB item_id notesB uidB nowB ?wa = (rb, ob, wb)"
    by (cases "checkout techB item_id notesB uidB nowB ?wa") auto
  then have "page_scan_use techB item_id ''use'' notesB uidB nowB ?wa = (rb, ob, wb)"
    by (simp add: checkout_def)
  from page_scan_use_refused [OF this oka qa sta]
  have b: "rb = Inr ()" "ob = [ErrCannotCheckOut ''in_use'']" "sheets wb = sheets ?wa"
    by (simp_all add: refused_def)
  from item_views_cong [OF b(3), of item_id] sta
  have fin: "item_status wb item_id = Some ''in_use''" "usage_log wb = ?lg'"
    by (simp_all add: usage_log_def table_def)
  have "one_after_other (checkout techA item_id notesA uidA nowA)
              (checkout techB item_id notesB uidB nowB) w =
            ((Inr (), [OkAction nm ''Checked OUT'']),
             (Inr (), [ErrCannotCheckOut ''in_use'']), wb)"
    unfolding one_after_other_def using runA runB b(1,2) by simp
  with fin show ?thesis by blast
qed

lemma checkouts_both_read_first:
  assumes ok: "items_ok w" and st: "item_status w item_id = Some ''available''"
    and nm: "listed_name w item_id = Some nm"
    and lg: "sheets w ''Usage_Log'' = Some lg" and q: "20 \<le> quota w"
  shows "\<exists>w'. both_read_first (read_sheet ''Items'')
              (check_out_button techA item_id notesA uidA nowA)
              (check_out_button techB item_id notesB uidB nowB) w =
            ((Inr (), [OkAction nm ''Checked OUT'']),
             (Inr (), [OkAction nm ''Checked OUT'']), w') \<and>
          item_status w' item_id = Some ''in_use'' \<and>
          usage_log w' = lg @ (if lg = [] then [Usage_Log_header] else []) @
             [[short_id uidA, item_id, nm, techA, ''CHECK OUT'', nowA, notesA],
              [short_id uidB, item_id, nm, techB, ''CHECK OUT'', nowB, notesB]]"
proof -
  from available_item [OF ok st nm] obtain h data ks m where
    hd: "sheets w ''Items'' = Some (h # data)" "distinct h"
    and cols: "''item_id'' \<in> set h" "index h ''status'' = Some ks" "''name'' \<in> set h"
    and m: "m < length data" "key_text h ''item_id'' (data ! m) = item_id"
      "\<forall>m' < m. key_text h ''item_id'' (data ! m') \<noteq> item_id"
    and cur: "key_text h ''status'' (data ! m) = ''available''"
      "key_text h ''name'' (data ! m) = nm" by blast
  have nref: "\<not> refused ''use'' (key_text h ''status'' (data ! m))"
    by (simp add: cur refused_def)
  let ?items = "map (to_record h) data"
  let ?w1 = "w\<lparr>quota := quota w - 2\<rparr>"
  let ?w2 = "w\<lparr>quota := quota w - 4\<rparr>"
  have rd1: "read_sheet ''Items'' w = (Inr ?items, [], ?w1)"
    using read_sheet_run [OF hd(1)] hd(2) q by (simp add: records_of_def)
  have s1: "sheets ?w1 ''Items'' = Some (h # data)" using hd(1) by simp
  have rd2: "read_sheet ''Items'' ?w1 = (Inr ?items, [], ?w2)"
    using read_sheet_run [OF s1] hd(2) q by (simp add: records_of_def)
  let ?data' = "data[m := patch_row (data ! m) ks ''in_use'']"
  let ?ea = "[short_id uidA, item_id, nm, techA, ''CHECK OUT'', nowA, notesA]"
  let ?eb = "[short_id uidB, item_id, nm, techB, ''CHECK OUT'', nowB, notesB]"
  let ?lg' = "lg @ (if lg = [] then [Usage_Log_header] else []) @ [?ea]"
  let ?w3 = "?w2\<lparr>sheets := (sheets ?w2)(''Items'' \<mapsto> h # ?data', ''Usage_Log'' \<mapsto> ?lg'),
      quota := quota ?w2 - (if lg = [] then 8 else 7)\<rparr>"
  have s2: "sheets ?w2 ''Items'' = Some (h # data)" using hd(1) by simp
  have l2: "sheets ?w2 ''Usage_Log'' = Some lg" using lg by simp
  have q2: "8 \<le> quota ?w2" using q by simp
  have runA: "check_out_button techA item_id notesA uidA nowA ?items ?w2 =
      (Inr (), [OkAction nm ''Checked OUT''], ?w3)"
    using do_action_run [OF s2 hd(2) cols m nref m l2 q2,
        where tech = techA and notes_val = notesA and uid = uidA and now = nowA]
    by (simp add: check_out_button_def cur label_def new_status_def action_text_def)
  note fm = first_match_patched [OF cols(1,2) _ m, of "''in_use''"]
  have s3: "sheets ?w3 ''Items'' = Some (h # ?data')" by simp
  have l3: "sheets ?w3 ''Usage_Log'' = Some ?lg'" by simp
  have q3: "8 \<le> quota ?w3" using q by auto
  let ?data'' = "?data'[m := patch_row (?data' ! m) ks ''in_use'']"
  let ?w4 = "?w3\<lparr>sheets := (sheets ?w3)(''Items'' \<mapsto> h # ?data'',
        ''Usage_Log'' \<mapsto> ?lg' @ (if ?lg' = [] then [Usage_Log_header] else []) @ [?eb]),
      quota := quota ?w3 - (if ?lg' = [] then 8 else 7)\<rparr>"
  have runB: "check_out_button techB item_id notesB uidB nowB ?items ?w3 =
      (Inr (), [OkAction nm ''Checked OUT''], ?w4)"
    using do_action_run [OF s3 hd(2) cols m nref fm(1) fm(2) fm(3) l3 q3,
        where tech = techB and notes_val = notesB and uid = uidB and now = nowB]
    by (simp add: check_out_button_def cur label_def new_status_def action_text_def)
  have s4: "sheets ?w4 ''Items'' = Some (h # ?data'')" by simp
  have st': "''status'' \<in> set h" using cols(2) by (rule index_mem)
  note fm2 = first_match_patched [OF cols(1,2) _ fm(1) fm(2) fm(3), of "''in_use''"]
  have st4: "item_status ?w4 item_id = Some ''in_use''"
    using item_status_first [OF s4 cols(1) st' fm2(1) fm2(2) fm2(3)] fm2(4) by simp
  have lg4: "usage_log ?w4 = lg @ (if lg = [] then [Usage_Log_header] else []) @ [?ea, ?eb]"
    by (simp add: usage_log_def table_def)
  have "both_read_first (read_sheet ''Items'')
              (check_out_button techA item_id notesA uidA nowA)
              (check_out_button techB item_id notesB uidB nowB) w =
            ((Inr (), [OkAction nm ''Checked OUT'']),
             (Inr (), [OkAction nm ''Checked OUT'']), ?w4)"
    unfolding both_read_first_def using rd1 rd2 runA runB by simp
  with st4 lg4 show ?thesis by blast
qed

subsection \<open>Examples\<close>

lemma example_items_ok: "items_ok example_remote"
  by (simp add: items_ok_def example_remote_def table_def header_row_def Items_header_def)

lemma example_status:
  "item_status example_remote ''ITM-1A2B3C4D'' = Some ''available''"
  "item_status example_remote ''ITM-5E6F7A8B'' = Some ''in_use''"
  "find_record example_remote ''Items'' ''item_id'' ''ITM-00000000'' = None"
  "listed_name example_remote ''ITM-1A2B3C4D'' = Some ''Multimeter''"
  "listed_name example_remote ''ITM-5E6F7A8B'' = Some ''Drill''"
  by (simp_all add: item_status_def listed_name_def find_record_def example_remote_def table_def
      records_of_def to_record_def pad_def Items_header_def)

lemma example_log: "sheets example_remote ''Usage_Log'' = Some []" "usage_log example_remote = []"
  "20 \<le> quota example_remote"
  by (simp_all add: example_remote_def usage_log_def table_def)

lemma example_checkout_run:
  "checkout ''Ahmad Technician'' ''ITM-1A2B3C4D'' ''for line 3''
       ''3f2b9c1a-5d7e-4c1b-9a2f-0e6d8b7c4a11'' ''2024-05-02 09:30'' example_remote =
     (Inr (), [OkAction ''Multimeter'' ''Checked OUT''],
      example_remote\<lparr>sheets := (sheets example_remote)
           (''Items'' \<mapsto>
              [Items_header,
               [''ITM-1A2B3C4D'', ''Multimeter'', ''Tools'', ''Rack A'', ''in_use'',
                ''Ahmad Technician'', ''2024-05-01 08:00'', []],
               [''ITM-5E6F7A8B'', ''Drill'', ''Tools'', ''Rack B'', ''in_use'',
                ''Siti Technician'', ''2024-05-01 08:10'', []]],
            ''Usage_Log'' \<mapsto>
              [Usage_Log_header,
               [''3F2B9C1A'', ''ITM-1A2B3C4D'', ''Multimeter'', ''Ahmad Technician'', ''CHECK OUT'',
                ''2024-05-02 09:30'', ''for line 3'']]),
         quota := 10\<rparr>)"
proof -
  let ?data = "[[''ITM-1A2B3C4D'', ''Multimeter'', ''Tools'', ''Rack A'', ''available'',
             ''Ahmad Technician'', ''2024-05-01 08:00'', []],
            [''ITM-5E6F7A8B'', ''Drill'', ''Tools'', ''Rack B'', ''in_use'',
             ''Siti Technician'', ''2024-05-01 08:10'', []]]"
  have a: "sheets example_remote ''Items'' = Some (Items_header # ?data)"
    by (simp add: example_remote_def)
  have b: "distinct Items_header" "''item_id'' \<in> set Items_header"
    "index Items_header ''status'' = Some 4" "''name'' \<in> set Items_header"
    by (simp_all add: Items_header_def)
  have c: "0 < length ?data" "key_text Items_header ''item_id'' (?data ! 0) = ''ITM-1A2B3C4D''"
    "\<forall>m' < 0. key_text Items_header ''item_id'' (?data ! m') \<noteq> ''ITM-1A2B3C4D''"
    "\<not> refused ''use'' (key_text Items_header ''status'' (?data ! 0))"
    by (simp_all add: key_text_def Items_header_def row_cell_def refused_def)
  have nm: "key_text Items_header ''name''
      [''ITM-1A2B3C4D'', ''Multimeter'', ''Tools'', ''Rack A'', ''available'',
       ''Ahmad Technician'', ''2024-05-01 08:00'', []] = ''Multimeter''"
    by (simp add: key_text_def Items_header_def row_cell_def)
  have q: "10 \<le> quota example_remote" using example_log(3) by simp
  show ?thesis
    using page_scan_use_run [OF a b c example_log(1) q,
        where tech = "''Ahmad Technician''" and notes_val = "''for line 3''"
          and uid = "''3f2b9c1a-5d7e-4c1b-9a2f-0e6d8b7c4a11''" and now = "''2024-05-02 09:30''"]
    by (simp add: checkout_def nm label_def new_status_def action_text_def short_id_example
        patch_row_def pad_def) (simp add: example_remote_def)
qed

lemma example_return_run:
  "return_item ''Siti Technician'' ''ITM-5E6F7A8B'' []
       ''3f2b9c1a-5d7e-4c1b-9a2f-0e6d8b7c4a11'' ''2024-05-02 09:30'' example_remote =
     (Inr (), [OkAction ''Drill'' ''Returned''],
      example_remote\<lparr>sheets := (sheets example_remote)
           (''Items'' \<mapsto>
              [Items_header,
               [''ITM-1A2B3C4D'', ''Multimeter'', ''Tools'', ''Rack A'', ''available'',
                ''Ahmad Technician'', ''2024-05-01 08:00'', []],
               [''ITM-5E6F7A8B'', ''Drill'', ''Tools'', ''Rack B'', ''available'',
                ''Siti Technician'', ''2024-05-01 08:10'', []]],
            ''Usage_Log'' \<mapsto>
              [Usage_Log_header,
               [''3F2B9C1A'', ''ITM-5E6F7A8B'', ''Drill'', ''Siti Technician'', ''RETURN'',
                ''2024-05-02 09:30'', []]]),
         quota := 10\<rparr>)"
proof -
  let ?data = "[[''ITM-1A2B3C4D'', ''Multimeter'', ''Tools'', ''Rack A'', ''available'',
             ''Ahmad Technician'', ''2024-05-01 08:00'', []],
            [''ITM-5E6F7A8B'', ''Drill'', ''Tools'', ''Rack B'', ''in_use'',
             ''Siti Technician'', ''2024-05-01 08:10'', []]]"
  have a: "sheets example_remote ''Items'' = Some (Items_header # ?data)"
    by (simp add: example_remote_def)
  have b: "distinct Items_header" "''item_id'' \<in> set Items_header"
    "index Items_header ''status'' = Some 4" "''name'' \<in> set Items_header"
    by (simp_all add: Items_header_def)
  have c: "1 < length ?data" "key_text Items_header ''item_id'' (?data ! 1) = ''ITM-5E6F7A8B''"
    "\<forall>m' < 1. key_text Items_header ''item_id'' (?data ! m') \<noteq> ''ITM-5E6F7A8B''"
    "\<not> refused ''return'' (key_text Items_header ''status'' (?data ! 1))"
    by (simp_all add: key_text_def Items_header_def row_cell_def refused_def)
  have nm: "key_text Items_header ''name''
      [''ITM-5E6F7A8B'', ''Drill'', ''Tools'', ''Rack B'', ''in_use'',
       ''Siti Technician'', ''2024-05-01 08:10'', []] = ''Drill''"
    by (simp add: key_text_def Items_header_def row_cell_def)
  have q: "10 \<le> quota example_remote" using example_log(3) by simp
  show ?thesis
    using page_scan_use_run [OF a b c example_log(1) q,
        where tech = "''Siti Technician''" and notes_val = "[]"
          and uid = "''3f2b9c1a-5d7e-4c1b-9a2f-0e6d8b7c4a11''" and now = "''2024-05-02 09:30''"]
    by (simp add: return_item_def nm label_def new_status_def action_text_def short_id_example
        patch_row_def pad_def) (simp add: example_remote_def)
qed

subsection \<open>Check out and return: the claims\<close>

text \<open>
  C3. When a run of the scan page shows the success message of a check out, the usage
  log has gained exactly one row (below the header row, which is written first when
  the log had no row): the new log id, the item id, the name the Items table listed for
  that item when the page read it, the technician of the session, the action
  \<^verbatim>\<open>CHECK OUT\<close>, the clock reading and the notes. The same holds for a return, with the
  action \<^verbatim>\<open>RETURN\<close>.
\<close>

theorem success_appends_one_log_entry:
  "(checkout tech item_id notes_val uid now w = (r, out, w') \<and> OkAction nm lbl \<in> set out \<longrightarrow>
      (\<exists>rec. find_record w ''Items'' ''item_id'' item_id = Some rec \<and>
             map_of rec ''name'' = Some nm) \<and>
      logged_once w w' [short_id uid, item_id, nm, tech, ''CHECK OUT'', now, notes_val]) \<and>
   (return_item tech item_id notes_val uid now w = (r, out, w') \<and> OkAction nm lbl \<in> set out \<longrightarrow>
      (\<exists>rec. find_record w ''Items'' ''item_id'' item_id = Some rec \<and>
             map_of rec ''name'' = Some nm) \<and>
      logged_once w w' [short_id uid, item_id, nm, tech, ''RETURN'', now, notes_val])"
proof (intro conjI impI)
  assume a: "checkout tech item_id notes_val uid now w = (r, out, w') \<and> OkAction nm lbl \<in> set out"
  then have "page_scan_use tech item_id ''use'' notes_val uid now w = (r, out, w')"
    and "OkAction nm lbl \<in> set out"
    by (simp_all add: checkout_def)
  from page_scan_use_ok [OF this]
  show "\<exists>rec. find_record w ''Items'' ''item_id'' item_id = Some rec \<and> map_of rec ''name'' = Some nm"
    and "logged_once w w' [short_id uid, item_id, nm, tech, ''CHECK OUT'', now, notes_val]"
    by (auto simp: action_text_def)
next
  assume a: "return_item tech item_id notes_val uid now w = (r, out, w') \<and> OkAction nm lbl \<in> set out"
  then have "page_scan_use tech item_id ''return'' notes_val uid now w = (r, out, w')"
    and "OkAction nm lbl \<in> set out"
    by (simp_all add: return_item_def)
  from page_scan_use_ok [OF this]
  show "\<exists>rec. find_record w ''Items'' ''item_id'' item_id = Some rec \<and> map_of rec ''name'' = Some nm"
    and "logged_once w w' [short_id uid, item_id, nm, tech, ''RETURN'', now, notes_val]"
    by (auto simp: action_text_def)
qed

theorem success_appends_one_log_entry_witness:
  "logged_once example_remote
     (snd (snd (checkout ''Ahmad Technician'' ''ITM-1A2B3C4D'' ''for line 3''
        ''3f2b9c1a-5d7e-4c1b-9a2f-0e6d8b7c4a11'' ''2024-05-02 09:30'' example_remote)))
     [''3F2B9C1A'', ''ITM-1A2B3C4D'', ''Multimeter'', ''Ahmad Technician'', ''CHECK OUT'',
      ''2024-05-02 09:30'', ''for line 3''] \<and>
   logged_once example_remote
     (snd (snd (return_item ''Siti Technician'' ''ITM-5E6F7A8B'' []
        ''3f2b9c1a-5d7e-4c1b-9a2f-0e6d8b7c4a11'' ''2024-05-02 09:30'' example_remote)))
     [''3F2B9C1A'', ''ITM-5E6F7A8B'', ''Drill'', ''Siti Technician'', ''RETURN'',
      ''2024-05-02 09:30'', []]"
proof -
  have a: "OkAction ''Multimeter'' ''Checked OUT'' \<in> set [OkAction ''Multimeter'' ''Checked OUT'']"
    and b: "OkAction ''Drill'' ''Returned'' \<in> set [OkAction ''Drill'' ''Returned'']"
    by simp_all
  from success_appends_one_log_entry
    [THEN conjunct1, rule_format, OF conjI, OF example_checkout_run a]
  have 1: "logged_once example_remote
     (snd (snd (checkout ''Ahmad Technician'' ''ITM-1A2B3C4D'' ''for line 3''
        ''3f2b9c1a-5d7e-4c1b-9a2f-0e6d8b7c4a11'' ''2024-05-02 09:30'' example_remote)))
     [''3F2B9C1A'', ''ITM-1A2B3C4D'', ''Multimeter'', ''Ahmad Technician'', ''CHECK OUT'',
      ''2024-05-02 09:30'', ''for line 3'']"
    by (simp add: example_checkout_run short_id_example)
  from success_appends_one_log_entry
    [THEN conjunct2, rule_format, OF conjI, OF example_return_run b]
  have 2: "logged_once example_remote
     (snd (snd (return_item ''Siti Technician'' ''ITM-5E6F7A8B'' []
        ''3f2b9c1a-5d7e-4c1b-9a2f-0e6d8b7c4a11'' ''2024-05-02 09:30'' example_remote)))
     [''3F2B9C1A'', ''ITM-5E6F7A8B'', ''Drill'', ''Siti Technician'', ''RETURN'',
      ''2024-05-02 09:30'', []]"
    by (simp add: example_return_run short_id_example)
  from 1 2 show ?thesis by simp
qed

text \<open>
  C2. A run of the scan page (the page reads the Items table, then \<^verbatim>\<open>do_action\<close> runs;
  check out is the action \<^verbatim>\<open>use\<close>) shows the success message of a check out only if
  the Items table lists the item with status \<^verbatim>\<open>available\<close>, and that of a return only if
  it lists it with status \<^verbatim>\<open>in_use\<close>. On an Items table with its header columns: for an
  item id the table does not list, the run shows the not-found error and no success;
  and, the remote service answering the page's read, a check out of an item listed with
  another status than \<^verbatim>\<open>available\<close> shows the cannot-check-out error, a return of an
  item not \<^verbatim>\<open>in_use\<close> the not-checked-out error. In each of these cases no table is
  changed: no item row is modified and no usage log row is appended.
\<close>

theorem checkout_return_guarded:
  assumes run: "page_scan_use tech item_id action notes_val uid now w = (r, out, w')"
  shows
    "(OkAction nm lbl \<in> set out \<and> action = ''use'' \<longrightarrow>
        item_status w item_id = Some ''available'') \<and>
     (OkAction nm lbl \<in> set out \<and> action = ''return'' \<longrightarrow>
        item_status w item_id = Some ''in_use'') \<and>
     (items_ok w \<and> find_record w ''Items'' ''item_id'' item_id = None \<longrightarrow>
        r = Inr () \<and> ErrItemNotFound item_id \<in> set out \<and>
        (\<forall>a b. OkAction a b \<notin> set out) \<and> sheets w' = sheets w) \<and>
     (items_ok w \<and> 2 \<le> quota w \<and> action = ''use'' \<and>
      item_status w item_id = Some s \<and> s \<noteq> ''available'' \<longrightarrow>
        r = Inr () \<and> out = [ErrCannotCheckOut s] \<and> sheets w' = sheets w) \<and>
     (items_ok w \<and> 2 \<le> quota w \<and> action = ''return'' \<and>
      item_status w item_id = Some s \<and> s \<noteq> ''in_use'' \<longrightarrow>
        r = Inr () \<and> out = [ErrNotCheckedOut s] \<and> sheets w' = sheets w)"
proof (intro conjI impI)
  assume a: "OkAction nm lbl \<in> set out \<and> action = ''use''"
  then have "OkAction nm lbl \<in> set out" by simp
  from page_scan_use_ok [OF run this] obtain rec current where
    "find_record w ''Items'' ''item_id'' item_id = Some rec"
    "map_of rec ''status'' = Some current" "\<not> refused action current" by blast
  with a show "item_status w item_id = Some ''available''"
    by (auto simp: item_status_def refused_def)
next
  assume a: "OkAction nm lbl \<in> set out \<and> action = ''return''"
  then have "OkAction nm lbl \<in> set out" by simp
  from page_scan_use_ok [OF run this] obtain rec current where
    "find_record w ''Items'' ''item_id'' item_id = Some rec"
    "map_of rec ''status'' = Some current" "\<not> refused action current" by blast
  with a show "item_status w item_id = Some ''in_use''"
    by (auto simp: item_status_def refused_def)
next
  assume a: "items_ok w \<and> find_record w ''Items'' ''item_id'' item_id = None"
  then have "items_ok w" "find_record w ''Items'' ''item_id'' item_id = None" by simp_all
  from page_scan_use_unknown [OF run this]
  show "r = Inr ()" "ErrItemNotFound item_id \<in> set out" "\<forall>a b. OkAction a b \<notin> set out"
    "sheets w' = sheets w" by simp_all
next
  assume a: "items_ok w \<and> 2 \<le> quota w \<and> action = ''use'' \<and>
      item_status w item_id = Some s \<and> s \<noteq> ''available''"
  then have h: "items_ok w" "2 \<le> quota w" "item_status w item_id = Some s" "refused action s"
    by (simp_all add: refused_def)
  from page_scan_use_refused [OF run h] a
  show "r = Inr ()" "out = [ErrCannotCheckOut s]" "sheets w' = sheets w" by simp_all
next
  assume a: "items_ok w \<and> 2 \<le> quota w \<and> action = ''return'' \<and>
      item_status w item_id = Some s \<and> s \<noteq> ''in_use''"
  then have h: "items_ok w" "2 \<le> quota w" "item_status w item_id = Some s" "refused action s"
    by (simp_all add: refused_def)
  from page_scan_use_refused [OF run h] a
  show "r = Inr ()" "out = [ErrNotCheckedOut s]" "sheets w' = sheets w" by simp_all
qed

theorem checkout_return_guarded_witness:
  "item_status example_remote ''ITM-1A2B3C4D'' = Some ''available'' \<and>
   (case page_scan_use ''Ahmad Technician'' ''ITM-5E6F7A8B'' ''use'' []
           ''3f2b9c1a-5d7e-4c1b-9a2f-0e6d8b7c4a11'' ''2024-05-02 09:30'' example_remote of
      (r, out, w') \<Rightarrow>
        r = Inr () \<and> out = [ErrCannotCheckOut ''in_use''] \<and> sheets w' = sheets example_remote) \<and>
   (case page_scan_use ''Ahmad Technician'' ''ITM-1A2B3C4D'' ''return'' []
           ''3f2b9c1a-5d7e-4c1b-9a2f-0e6d8b7c4a11'' ''2024-05-02 09:30'' example_remote of
      (r, out, w') \<Rightarrow>
        r = Inr () \<and> out = [ErrNotCheckedOut ''available''] \<and> sheets w' = sheets example_remote) \<and>
   (case page_scan_use ''Ahmad Technician'' ''ITM-00000000'' ''use'' []
           ''3f2b9c1a-5d7e-4c1b-9a2f-0e6d8b7c4a11'' ''2024-05-02 09:30'' example_remote of
      (r, out, w') \<Rightarrow>
        r = Inr () \<and> ErrItemNotFound ''ITM-00000000'' \<in> set out \<and>
        sheets w' = sheets example_remote)"
proof -
  let ?uid = "''3f2b9c1a-5d7e-4c1b-9a2f-0e6d8b7c4a11''"
  let ?now = "''2024-05-02 09:30''"
  have q: "2 \<le> quota example_remote" using example_log(3) by simp
  have run1: "page_scan_use ''Ahmad Technician'' ''ITM-1A2B3C4D'' ''use'' ''for line 3'' ?uid ?now
      example_remote = (Inr (), [OkAction ''Multimeter'' ''Checked OUT''],
        snd (snd (checkout ''Ahmad Technician'' ''ITM-1A2B3C4D'' ''for line 3'' ?uid ?now
          example_remote)))"
    using example_checkout_run by (simp add: checkout_def)
  from checkout_return_guarded [OF run1, where nm = "''Multimeter''" and lbl = "''Checked OUT''"]
  have a: "item_status example_remote ''ITM-1A2B3C4D'' = Some ''available''" by simp
  obtain r2 o2 w2 where run2:
    "page_scan_use ''Ahmad Technician'' ''ITM-5E6F7A8B'' ''use'' [] ?uid ?now example_remote
       = (r2, o2, w2)"
    by (cases "page_scan_use ''Ahmad Technician'' ''ITM-5E6F7A8B'' ''use'' [] ?uid ?now
        example_remote") auto
  from checkout_return_guarded [OF run2, where s = "''in_use''"]
  have b: "r2 = Inr () \<and> o2 = [ErrCannotCheckOut ''in_use''] \<and> sheets w2 = sheets example_remote"
    using example_items_ok q example_status(2) by simp
  obtain r3 o3 w3 where run3:
    "page_scan_use ''Ahmad Technician'' ''ITM-1A2B3C4D'' ''return'' [] ?uid ?now example_remote
       = (r3, o3, w3)"
    by (cases "page_scan_use ''Ahmad Technician'' ''ITM-1A2B3C4D'' ''return'' [] ?uid ?now
        example_remote") auto
  from checkout_return_guarded [OF run3, where s = "''available''"]
  have c: "r3 = Inr () \<and> o3 = [ErrNotCheckedOut ''available''] \<and>
      sheets w3 = sheets example_remote"
    using example_items_ok q example_status(1) by simp
  obtain r4 o4 w4 where run4:
    "page_scan_use ''Ahmad Technician'' ''ITM-00000000'' ''use'' [] ?uid ?now example_remote
       = (r4, o4, w4)"
    by (cases "page_scan_use ''Ahmad Technician'' ''ITM-00000000'' ''use'' [] ?uid ?now
        example_remote") auto
  from checkout_return_guarded [OF run4]
  have d: "r4 = Inr () \<and> ErrItemNotFound ''ITM-00000000'' \<in> set o4 \<and>
      sheets w4 = sheets example_remote"
    using example_items_ok example_status(3) by simp
  show ?thesis unfolding run2 run3 run4 using a b c d by simp
qed

lemma short_id_example2: "short_id ''9c0d1e2f-1a2b-4c3d-8e4f-5a6b7c8d9e0f'' = ''9C0D1E2F''"
  by code_simp

text \<open>
  C1, as amended. For an item the Items table lists as \<^verbatim>\<open>available\<close> (the Usage_Log table
  exists and the remote service answers): when two sessions press Check Out for it and
  the second page run starts after the first has finished, the first succeeds, the
  status becomes \<^verbatim>\<open>in_use\<close>, one \<^verbatim>\<open>CHECK OUT\<close> row is appended, and the second is refused
  with the cannot-check-out error and writes nothing. When both pages have read the
  Items table before either acts, both succeed: the status is written twice and two
  \<^verbatim>\<open>CHECK OUT\<close> rows are appended. The program has no outcome that reports contention.
\<close>

theorem two_checkouts_of_an_available_item:
  assumes "items_ok w" and "item_status w item_id = Some ''available''"
    and "listed_name w item_id = Some nm"
    and "sheets w ''Usage_Log'' = Some lg" and "20 \<le> quota w"
  shows
    "(\<exists>w'. one_after_other (checkout techA item_id notesA uidA nowA)
              (checkout techB item_id notesB uidB nowB) w =
            ((Inr (), [OkAction nm ''Checked OUT'']),
             (Inr (), [ErrCannotCheckOut ''in_use'']), w') \<and>
          item_status w' item_id = Some ''in_use'' \<and>
          usage_log w' = lg @ (if lg = [] then [Usage_Log_header] else []) @
             [[short_id uidA, item_id, nm, techA, ''CHECK OUT'', nowA, notesA]]) \<and>
     (\<exists>w'. both_read_first (read_sheet ''Items'')
              (check_out_button techA item_id notesA uidA nowA)
              (check_out_button techB item_id notesB uidB nowB) w =
            ((Inr (), [OkAction nm ''Checked OUT'']),
             (Inr (), [OkAction nm ''Checked OUT'']), w') \<and>
          item_status w' item_id = Some ''in_use'' \<and>
          usage_log w' = lg @ (if lg = [] then [Usage_Log_header] else []) @
             [[short_id uidA, item_id, nm, techA, ''CHECK OUT'', nowA, notesA],
              [short_id uidB, item_id, nm, techB, ''CHECK OUT'', nowB, notesB]])"
proof -
  have "12 \<le> quota w" using assms(5) by simp
  from checkouts_one_after_other [OF assms(1-4) this]
    checkouts_both_read_first [OF assms]
  show ?thesis by blast
qed

theorem two_checkouts_of_an_available_item_witness:
  "(\<exists>w'. one_after_other
       (checkout ''Ahmad Technician'' ''ITM-1A2B3C4D'' [] ''3f2b9c1a-5d7e-4c1b-9a2f-0e6d8b7c4a11''
          ''2024-05-02 09:30'')
       (checkout ''Siti Technician'' ''ITM-1A2B3C4D'' [] ''9c0d1e2f-1a2b-4c3d-8e4f-5a6b7c8d9e0f''
          ''2024-05-02 09:30'') example_remote =
     ((Inr (), [OkAction ''Multimeter'' ''Checked OUT'']),
      (Inr (), [ErrCannotCheckOut ''in_use'']), w') \<and>
     item_status w' ''ITM-1A2B3C4D'' = Some ''in_use'' \<and>
     usage_log w' =
       [Usage_Log_header,
        [''3F2B9C1A'', ''ITM-1A2B3C4D'', ''Multimeter'', ''Ahmad Technician'', ''CHECK OUT'',
         ''2024-05-02 09:30'', []]]) \<and>
   (\<exists>w'. both_read_first (read_sheet ''Items'')
       (check_out_button ''Ahmad Technician'' ''ITM-1A2B3C4D'' []
          ''3f2b9c1a-5d7e-4c1b-9a2f-0e6d8b7c4a11'' ''2024-05-02 09:30'')
       (check_out_button ''Siti Technician'' ''ITM-1A2B3C4D'' []
          ''9c0d1e2f-1a2b-4c3d-8e4f-5a6b7c8d9e0f'' ''2024-05-02 09:30'') example_remote =
     ((Inr (), [OkAction ''Multimeter'' ''Checked OUT'']),
      (Inr (), [OkAction ''Multimeter'' ''Checked OUT'']), w') \<and>
     item_status w' ''ITM-1A2B3C4D'' = Some ''in_use'' \<and>
     usage_log w' =
       [Usage_Log_header,
        [''3F2B9C1A'', ''ITM-1A2B3C4D'', ''Multimeter'', ''Ahmad Technician'', ''CHECK OUT'',
         ''2024-05-02 09:30'', []],
        [''9C0D1E2F'', ''ITM-1A2B3C4D'', ''Multimeter'', ''Siti Technician'', ''CHECK OUT'',
         ''2024-05-02 09:30'', []]])"
  using two_checkouts_of_an_available_item
    [OF example_items_ok example_status(1) example_status(4) example_log(1) example_log(3),
      where techA = "''Ahmad Technician''" and techB = "''Siti Technician''"
        and notesA = "[]" and notesB = "[]"
        and uidA = "''3f2b9c1a-5d7e-4c1b-9a2f-0e6d8b7c4a11''"
        and uidB = "''9c0d1e2f-1a2b-4c3d-8e4f-5a6b7c8d9e0f''"
        and nowA = "''2024-05-02 09:30''" and nowB = "''2024-05-02 09:30''"]
  by (simp add: short_id_example short_id_example2)

text \<open>
  C1 as stated fails: in the schedule where both pages read the Items table before
  either writes, each \<^verbatim>\<open>do_action\<close> checks the status in its own frame, both show
  success and the usage log gains two \<^verbatim>\<open>CHECK OUT\<close> rows for the one item.
\<close>

theorem both_checkouts_succeed_counterexample:
  "fst (both_read_first (read_sheet ''Items'')
       (check_out_button ''Ahmad Technician'' ''ITM-1A2B3C4D'' []
          ''3f2b9c1a-5d7e-4c1b-9a2f-0e6d8b7c4a11'' ''2024-05-02 09:30'')
       (check_out_button ''Siti Technician'' ''ITM-1A2B3C4D'' []
          ''9c0d1e2f-1a2b-4c3d-8e4f-5a6b7c8d9e0f'' ''2024-05-02 09:30'') example_remote)
     = (Inr (), [OkAction ''Multimeter'' ''Checked OUT'']) \<and>
   fst (snd (both_read_first (read_sheet ''Items'')
       (check_out_button ''Ahmad Technician'' ''ITM-1A2B3C4D'' []
          ''3f2b9c1a-5d7e-4c1b-9a2f-0e6d8b7c4a11'' ''2024-05-02 09:30'')
       (check_out_button ''Siti Technician'' ''ITM-1A2B3C4D'' []
          ''9c0d1e2f-1a2b-4c3d-8e4f-5a6b7c8d9e0f'' ''2024-05-02 09:30'') example_remote))
     = (Inr (), [OkAction ''Multimeter'' ''Checked OUT'']) \<and>
   usage_log (snd (snd (both_read_first (read_sheet ''Items'')
       (check_out_button ''Ahmad Technician'' ''ITM-1A2B3C4D'' []
          ''3f2b9c1a-5d7e-4c1b-9a2f-0e6d8b7c4a11'' ''2024-05-02 09:30'')
       (check_out_button ''Siti Technician'' ''ITM-1A2B3C4D'' []
          ''9c0d1e2f-1a2b-4c3d-8e4f-5a6b7c8d9e0f'' ''2024-05-02 09:30'') example_remote)))
     = [Usage_Log_header,
        [''3F2B9C1A'', ''ITM-1A2B3C4D'', ''Multimeter'', ''Ahmad Technician'', ''CHECK OUT'',
         ''2024-05-02 09:30'', []],
        [''9C0D1E2F'', ''ITM-1A2B3C4D'', ''Multimeter'', ''Siti Technician'', ''CHECK OUT'',
         ''2024-05-02 09:30'', []]]"
  using checkouts_both_read_first
    [OF example_items_ok example_status(1) example_status(4) example_log(1) example_log(3),
      where techA = "''Ahmad Technician''" and techB = "''Siti Technician''"
        and notesA = "[]" and notesB = "[]"
        and uidA = "''3f2b9c1a-5d7e-4c1b-9a2f-0e6d8b7c4a11''"
        and uidB = "''9c0d1e2f-1a2b-4c3d-8e4f-5a6b7c8d9e0f''"
        and nowA = "''2024-05-02 09:30''" and nowB = "''2024-05-02 09:30''"]
  by (auto simp: short_id_example short_id_example2)

subsection \<open>Triage of a report\<close>

lemma update_cell_by_id_unknown:
  assumes "sheets w n = Some (h # data)" "distinct h"
    and "\<forall>r \<in> set data. key_text h id_col r \<noteq> id_val" and "3 \<le> quota w"
  shows "update_cell_by_id n id_col id_val update_dict w =
     (Inr (), [ErrIdNotFound id_val n], w\<lparr>quota := quota w - 3\<rparr>)"
proof -
  have fr: "find_row 0 (map (to_record h) data) id_col id_val = None"
    using assms(3) by (simp add: find_row_None)
  let ?w1 = "w\<lparr>quota := quota w - 1\<rparr>"
  let ?w2 = "w\<lparr>quota := quota w - 2\<rparr>"
  let ?w3 = "w\<lparr>quota := quota w - 3\<rparr>"
  have s1: "get_worksheet n w = (Inr n, [], ?w1)"
    using assms(1,4) by (intro get_worksheet_run) auto
  have s2: "ws_get_all_records n ?w1 = (Inr (map (to_record h) data), [], ?w2)"
    using assms(1,2,4) by (simp add: ws_get_all_records_def with_sheet_unfold io_return_def)
  have s3: "ws_row_values n 1 ?w2 = (Inr h, [], ?w3)"
    using assms(1,4) by (simp add: ws_row_values_def with_sheet_unfold io_return_def)
  show ?thesis
    using s1 s2 s3 by (simp add: update_cell_by_id_def io_bind_def fr st_show_def)
qed

lemma triage_unknown:
  assumes "sheets w ''Reports'' = Some (h # data)" "distinct h"
    and "\<forall>r \<in> set data. key_text h ''report_id'' r \<noteq> sel_id" and "3 \<le> quota w"
  shows "triage sel_id status_new resolution tech now w =
     (Inr (), [ErrIdNotFound sel_id ''Reports'', OkReportUpdated], w\<lparr>quota := quota w - 3\<rparr>)"
  using update_cell_by_id_unknown [OF assms, where update_dict =
      "[(''status'', status_new), (''assigned_to'', tech), (''resolution'', resolution),
        (''updated_at'', now)]"]
  by (simp add: triage_def io_bind_def st_show_def)

lemma ws_update_cell_step:
  assumes "sheets w n = Some (h # data)" "m < length data" "0 < quota w"
  shows "ws_update_cell n (Suc (Suc m)) (Suc k) v w =
     (Inr (), [], w\<lparr>sheets := (sheets w)(n \<mapsto> h # data[m := patch_row (data ! m) k v]),
                   quota := quota w - 1\<rparr>)"
  using ws_update_cell_run [OF assms(1,3), of "Suc m" k v] assms(2)
  by (simp add: set_cell_Cons)

lemma triage_run:
  assumes sheet: "sheets w ''Reports'' = Some (Reports_header # data)"
    and m: "m < length data" "key_text Reports_header ''report_id'' (data ! m) = sel_id"
      "\<forall>m' < m. key_text Reports_header ''report_id'' (data ! m') \<noteq> sel_id"
    and q: "7 \<le> quota w"
  shows "triage sel_id status_new resolution tech now w =
     (Inr (), [OkReportUpdated],
      w\<lparr>sheets := (sheets w)(''Reports'' \<mapsto> Reports_header #
            data[m := patch_row (patch_row (patch_row (patch_row (data ! m) 5 status_new) 6 tech)
                         9 resolution) 8 now]),
        quota := quota w - 7\<rparr>)"
proof -
  let ?h = Reports_header
  have dist: "distinct ?h" by (simp add: Reports_header_def)
  have idx: "index ?h ''status'' = Some 5" "index ?h ''assigned_to'' = Some 6"
    "index ?h ''resolution'' = Some 9" "index ?h ''updated_at'' = Some 8"
    "''status'' \<in> set ?h" "''assigned_to'' \<in> set ?h" "''resolution'' \<in> set ?h"
    "''updated_at'' \<in> set ?h"
    by (simp_all add: Reports_header_def)
  have fr: "find_row 0 (map (to_record ?h) data) ''report_id'' sel_id = Some (Suc (Suc m))"
    using find_row_first_index [OF m, of 0] by simp
  let ?w1 = "w\<lparr>quota := quota w - 1\<rparr>"
  let ?w2 = "w\<lparr>quota := quota w - 2\<rparr>"
  let ?w3 = "w\<lparr>quota := quota w - 3\<rparr>"
  have s1: "get_worksheet ''Reports'' w = (Inr ''Reports'', [], ?w1)"
    using sheet q by (intro get_worksheet_run) auto
  have s2: "ws_get_all_records ''Reports'' ?w1 = (Inr (map (to_record ?h) data), [], ?w2)"
    using sheet dist q by (simp add: ws_get_all_records_def with_sheet_unfold io_return_def)
  have s3: "ws_row_values ''Reports'' 1 ?w2 = (Inr ?h, [], ?w3)"
    using sheet q by (simp add: ws_row_values_def with_sheet_unfold io_return_def)
  let ?r1 = "patch_row (data ! m) 5 status_new"
  let ?r2 = "patch_row ?r1 6 tech"
  let ?r3 = "patch_row ?r2 9 resolution"
  let ?r4 = "patch_row ?r3 8 now"
  let ?w4 = "w\<lparr>sheets := (sheets w)(''Reports'' \<mapsto> ?h # data[m := ?r1]), quota := quota w - 4\<rparr>"
  let ?w5 = "w\<lparr>sheets := (sheets w)(''Reports'' \<mapsto> ?h # data[m := ?r2]), quota := quota w - 5\<rparr>"
  let ?w6 = "w\<lparr>sheets := (sheets w)(''Reports'' \<mapsto> ?h # data[m := ?r3]), quota := quota w - 6\<rparr>"
  let ?w7 = "w\<lparr>sheets := (sheets w)(''Reports'' \<mapsto> ?h # data[m := ?r4]), quota := quota w - 7\<rparr>"
  have u1: "ws_update_cell ''Reports'' (Suc (Suc m)) (Suc 5) status_new ?w3 = (Inr (), [], ?w4)"
    using ws_update_cell_step [of ?w3 "''Reports''" ?h data m 5 status_new] sheet m(1) q by simp
  have u2: "ws_update_cell ''Reports'' (Suc (Suc m)) (Suc 6) tech ?w4 = (Inr (), [], ?w5)"
    using ws_update_cell_step [of ?w4 "''Reports''" ?h "data[m := ?r1]" m 6 tech] m(1) q by simp
  have u3: "ws_update_cell ''Reports'' (Suc (Suc m)) (Suc 9) resolution ?w5 = (Inr (), [], ?w6)"
    using ws_update_cell_step [of ?w5 "''Reports''" ?h "data[m := ?r2]" m 9 resolution] m(1) q
    by simp
  have u4: "ws_update_cell ''Reports'' (Suc (Suc m)) (Suc 8) now ?w6 = (Inr (), [], ?w7)"
    using ws_update_cell_step [of ?w6 "''Reports''" ?h "data[m := ?r3]" m 8 now] m(1) q by simp
  have uc: "update_cells ''Reports'' (Suc (Suc m)) ?h
      [(''status'', status_new), (''assigned_to'', tech), (''resolution'', resolution),
       (''updated_at'', now)] ?w3 = (Inr (), [], ?w7)"
    using u1 u2 u3 u4 by (simp add: idx io_bind_def io_return_def)
  show ?thesis
    using s1 s2 s3 uc by (simp add: triage_def update_cell_by_id_def io_bind_def fr st_show_def)
qed

lemma ws_get_all_records_Inr:
  "ws_get_all_records n w = (Inr records, out, w') \<Longrightarrow> sheets w n = Some rows \<Longrightarrow>
   records = records_of rows"
  by (auto simp: ws_get_all_records_def with_sheet_unfold io_return_def io_raise_def
      records_of_def split: if_splits list.splits)

lemma get_worksheet_Inr: "get_worksheet n w = (Inr ws, out, w') \<Longrightarrow> ws = n"
  by (auto simp: get_worksheet_def with_sheet_unfold io_return_def
      split: if_splits option.splits)

lemma update_cell_by_id_known_out:
  assumes run: "update_cell_by_id n c v ups w = (r, out, w')"
    and sheet: "sheets w n = Some (h # data)"
    and known: "\<exists>row \<in> set data. key_text h c row = v"
  shows "out = []"
proof (rule ccontr)
  assume "out \<noteq> []"
  with update_cell_by_id_out [OF run] have out: "out = [ErrIdNotFound v n]" by simp
  from run show False unfolding update_cell_by_id_def
  proof (cases rule: io_bind_cases)
    case (raised e)
    then show ?thesis using out by (auto dest: get_worksheet_out)
  next
    case (returned ws o1 w1 o2)
    then have o1: "o1 = []" "sheets w1 = sheets w" "ws = n"
      by (auto dest: get_worksheet_out get_worksheet_Inr)
    from returned(2) show ?thesis
    proof (cases rule: io_bind_cases)
      case (raised e)
      then show ?thesis using returned(3) o1 out by (auto dest: ws_get_all_records_out)
    next
      case (returned records o3 w3 o4)
      then have o3: "o3 = []" "sheets w3 = sheets w1" by (auto dest: ws_get_all_records_out)
      have recs: "records = map (to_record h) data"
        using ws_get_all_records_Inr [of ws w1 records o3 w3 "h # data"] returned(1) o1 sheet
        by (simp add: records_of_def)
      from known have fr: "find_row 0 records c v \<noteq> None"
        unfolding recs by (simp add: find_row_None)
      from returned(2) show ?thesis
      proof (cases rule: io_bind_cases)
        case (raised e)
        then show ?thesis using \<open>out = o1 @ o2\<close> \<open>o2 = o3 @ o4\<close> o1 o3 out
          by (auto dest: ws_row_values_out)
      next
        case (returned headers o5 w5 o6)
        then have o5: "o5 = []" by (auto dest: ws_row_values_out)
        from fr obtain m where m: "find_row 0 records c v = Some m" by auto
        then obtain i where "m = Suc i" using find_row_Suc by blast
        with m returned(2) have "update_cells ws (Suc i) headers ups w5 = (r, o6, w')" by simp
        from update_cells_frame [OF this] have "o6 = []" by simp
        then show ?thesis
          using \<open>out = o1 @ o2\<close> \<open>o2 = o3 @ o4\<close> \<open>o4 = o5 @ o6\<close> o1 o3 o5 out by simp
      qed
    qed
  qed
qed

lemma column_Inr_key:
  "column (map (to_record h) data) c = Inr ids \<Longrightarrow> data \<noteq> [] \<Longrightarrow> c \<in> set h"
  by (cases data) (auto simp: map_of_to_record dest: index_mem split: option.splits sum.splits)

lemma triage_known_out:
  assumes run: "triage sel_id status_new resolution tech now w = (r, out, w')"
    and sheet: "sheets w ''Reports'' = Some (h # data)"
    and known: "\<exists>row \<in> set data. key_text h ''report_id'' row = sel_id"
  shows "ErrIdNotFound sel_id ''Reports'' \<notin> set out"
  using run unfolding triage_def
proof (cases rule: io_bind_cases)
  case (raised e)
  from update_cell_by_id_known_out [OF raised(1) sheet known] show ?thesis by simp
next
  case (returned x o1 w1 o2)
  from update_cell_by_id_known_out [OF returned(1) sheet known] have "o1 = []" .
  with returned show ?thesis by (auto simp: st_show_def)
qed

lemma triage_of_listed_report:
  assumes rd: "read_sheet ''Reports'' u = (Inr reports, shown, w)"
    and col: "column reports ''report_id'' = Inr ids" and sel: "sel_id \<in> set ids"
    and run: "triage sel_id status_new resolution tech now w = (r, out, w')"
  shows "ErrIdNotFound sel_id ''Reports'' \<notin> set out"
proof -
  from col sel have ne: "reports \<noteq> []" by auto
  from read_sheet_result [OF rd] ne
  have same: "sheets w = sheets u" and recs: "reports = records_of (table u ''Reports'')"
    by auto
  from recs ne obtain h data where tab: "table u ''Reports'' = h # data"
    by (cases "table u ''Reports''") (auto simp: records_of_def)
  then have sheet0: "sheets u ''Reports'' = Some (h # data)"
    by (auto simp: table_def split: option.splits)
  with same have sheet: "sheets w ''Reports'' = Some (h # data)" by simp
  from recs tab have reports: "reports = map (to_record h) data" by (simp add: records_of_def)
  with ne have "data \<noteq> []" by auto
  with col reports have c: "''report_id'' \<in> set h" using column_Inr_key by blast
  from column_records [OF c, of data] col reports
  have "ids = map (key_text h ''report_id'') data" by simp
  with sel have "\<exists>row \<in> set data. key_text h ''report_id'' row = sel_id" by auto
  from triage_known_out [OF run sheet this] show ?thesis .
qed

lemma triaged_row_cells:
  "\<forall>c \<in> set Reports_header.
     key_text Reports_header c
       (patch_row (patch_row (patch_row (patch_row row 5 status_new) 6 tech) 9 resolution) 8 now)
     = (if c = ''status'' then status_new else if c = ''assigned_to'' then tech
        else if c = ''resolution'' then resolution else if c = ''updated_at'' then now
        else key_text Reports_header c row)"
  by (simp add: Reports_header_def key_text_def row_cell_patch)

text \<open>
  C6, as amended. For a report of the Reports table, laid out as the application creates
  it, and a service that answers the seven requests of the update, the Update button of
  the reports page writes status, assigned_to, resolution and updated_at in the first
  row whose \<^verbatim>\<open>report_id\<close> is the chosen one, leaves every other column of that row and
  every other row as they were, and shows the success message. The page chooses
  \<open>sel_id\<close> in the \<^verbatim>\<open>report_id\<close> column of the frame it has just read, and for such an id
  the update never shows the not-found error. Called for a \<^verbatim>\<open>report_id\<close> that no row
  carries, \<^verbatim>\<open>update_cell_by_id\<close> shows the not-found error and writes nothing, and the
  handler then shows its success message, as it does after every update that returns.
\<close>

theorem triage_sets_four_fields_of_a_listed_report:
  "(sheets w ''Reports'' = Some (Reports_header # data) \<and> m < length data \<and>
    key_text Reports_header ''report_id'' (data ! m) = sel_id \<and>
    (\<forall>m' < m. key_text Reports_header ''report_id'' (data ! m') \<noteq> sel_id) \<and> 7 \<le> quota w \<longrightarrow>
      triage sel_id status_new resolution tech now w =
        (Inr (), [OkReportUpdated],
         w\<lparr>sheets := (sheets w)(''Reports'' \<mapsto> Reports_header #
               data[m := patch_row (patch_row (patch_row (patch_row (data ! m) 5 status_new)
                                      6 tech) 9 resolution) 8 now]),
           quota := quota w - 7\<rparr>)) \<and>
   (\<forall>c \<in> set Reports_header.
      key_text Reports_header c
        (patch_row (patch_row (patch_row (patch_row row 5 status_new) 6 tech) 9 resolution) 8 now)
      = (if c = ''status'' then status_new else if c = ''assigned_to'' then tech
         else if c = ''resolution'' then resolution else if c = ''updated_at'' then now
         else key_text Reports_header c row)) \<and>
   (read_sheet ''Reports'' u = (Inr reports, shown, w) \<and>
    column reports ''report_id'' = Inr ids \<and> sel_id \<in> set ids \<and>
    triage sel_id status_new resolution tech now w = (r, out, w') \<longrightarrow>
      ErrIdNotFound sel_id ''Reports'' \<notin> set out) \<and>
   (sheets w ''Reports'' = Some (h # data) \<and> distinct h \<and>
    (\<forall>row \<in> set data. key_text h ''report_id'' row \<noteq> sel_id) \<and> 3 \<le> quota w \<longrightarrow>
      triage sel_id status_new resolution tech now w =
        (Inr (), [ErrIdNotFound sel_id ''Reports'', OkReportUpdated],
         w\<lparr>quota := quota w - 3\<rparr>))"
proof (intro conjI impI)
  assume "sheets w ''Reports'' = Some (Reports_header # data) \<and> m < length data \<and>
    key_text Reports_header ''report_id'' (data ! m) = sel_id \<and>
    (\<forall>m' < m. key_text Reports_header ''report_id'' (data ! m') \<noteq> sel_id) \<and> 7 \<le> quota w"
  then show "triage sel_id status_new resolution tech now w =
        (Inr (), [OkReportUpdated],
         w\<lparr>sheets := (sheets w)(''Reports'' \<mapsto> Reports_header #
               data[m := patch_row (patch_row (patch_row (patch_row (data ! m) 5 status_new)
                                      6 tech) 9 resolution) 8 now]),
           quota := quota w - 7\<rparr>)"
    by (intro triage_run) auto
next
  show "\<forall>c \<in> set Reports_header.
      key_text Reports_header c
        (patch_row (patch_row (patch_row (patch_row row 5 status_new) 6 tech) 9 resolution) 8 now)
      = (if c = ''status'' then status_new else if c = ''assigned_to'' then tech
         else if c = ''resolution'' then resolution else if c = ''updated_at'' then now
         else key_text Reports_header c row)"
    by (rule triaged_row_cells)
next
  assume "read_sheet ''Reports'' u = (Inr reports, shown, w) \<and>
    column reports ''report_id'' = Inr ids \<and> sel_id \<in> set ids \<and>
    triage sel_id status_new resolution tech now w = (r, out, w')"
  then show "ErrIdNotFound sel_id ''Reports'' \<notin> set out"
    using triage_of_listed_report by blast
next
  assume "sheets w ''Reports'' = Some (h # data) \<and> distinct h \<and>
    (\<forall>row \<in> set data. key_text h ''report_id'' row \<noteq> sel_id) \<and> 3 \<le> quota w"
  then show "triage sel_id status_new resolution tech now w =
        (Inr (), [ErrIdNotFound sel_id ''Reports'', OkReportUpdated],
         w\<lparr>quota := quota w - 3\<rparr>)"
    by (intro triage_unknown) auto
qed

theorem triage_sets_four_fields_of_a_listed_report_witness:
  "triage ''RPT-7A1B2C3D'' ''resolved'' ''Fixed fuse'' ''Siti Technician'' ''2024-05-02 10:00''
       example_reports =
     (Inr (), [OkReportUpdated],
      \<lparr>sheets =
         [''Reports'' \<mapsto>
            [Reports_header,
             [''RPT-7A1B2C3D'', ''Ali User'', ''Line 3 down'', ''Conveyor stopped'', ''high'',
              ''resolved'', ''Siti Technician'', ''2024-05-01 09:30'', ''2024-05-02 10:00'',
              ''Fixed fuse'']]],
       quota = 3\<rparr>) \<and>
   read_sheet ''Reports'' example_reports =
     (Inr [to_record Reports_header
             [''RPT-7A1B2C3D'', ''Ali User'', ''Line 3 down'', ''Conveyor stopped'', ''high'',
              ''open'', [], ''2024-05-01 09:30'', [], []]], [],
      example_reports\<lparr>quota := 8\<rparr>) \<and>
   column [to_record Reports_header
             [''RPT-7A1B2C3D'', ''Ali User'', ''Line 3 down'', ''Conveyor stopped'', ''high'',
              ''open'', [], ''2024-05-01 09:30'', [], []]] ''report_id'' = Inr [''RPT-7A1B2C3D''] \<and>
   ErrIdNotFound ''RPT-7A1B2C3D'' ''Reports'' \<notin>
     set (fst (snd (triage ''RPT-7A1B2C3D'' ''resolved'' ''Fixed fuse'' ''Siti Technician''
                      ''2024-05-02 10:00'' (example_reports\<lparr>quota := 8\<rparr>))))"
proof -
  let ?row = "[''RPT-7A1B2C3D'', ''Ali User'', ''Line 3 down'', ''Conveyor stopped'', ''high'',
             ''open'', [], ''2024-05-01 09:30'', [], []]"
  let ?w = "example_reports\<lparr>quota := 8\<rparr>"
  have sheet: "sheets example_reports ''Reports'' = Some [Reports_header, ?row]"
    by (simp add: example_reports_def)
  have key: "key_text Reports_header ''report_id'' ?row = ''RPT-7A1B2C3D''"
    by (simp add: key_text_def Reports_header_def row_cell_def)
  have a: "triage ''RPT-7A1B2C3D'' ''resolved'' ''Fixed fuse'' ''Siti Technician''
       ''2024-05-02 10:00'' example_reports =
     (Inr (), [OkReportUpdated],
      \<lparr>sheets =
         [''Reports'' \<mapsto>
            [Reports_header,
             [''RPT-7A1B2C3D'', ''Ali User'', ''Line 3 down'', ''Conveyor stopped'', ''high'',
              ''resolved'', ''Siti Technician'', ''2024-05-01 09:30'', ''2024-05-02 10:00'',
              ''Fixed fuse'']]],
       quota = 3\<rparr>)"
    using triage_sets_four_fields_of_a_listed_report
      [where w = example_reports and data = "[?row]" and m = 0 and sel_id = "''RPT-7A1B2C3D''"
        and status_new = "''resolved''" and resolution = "''Fixed fuse''"
        and tech = "''Siti Technician''" and now = "''2024-05-02 10:00''"]
      sheet key
    by (simp add: example_reports_def patch_row_def pad_def)
  have rd: "read_sheet ''Reports'' example_reports =
      (Inr [to_record Reports_header ?row], [], ?w)"
    using read_sheet_run [of example_reports "''Reports''" "[Reports_header, ?row]"] sheet
    by (simp add: example_reports_def records_of_def Reports_header_def)
  have col: "column [to_record Reports_header ?row] ''report_id'' = Inr [''RPT-7A1B2C3D'']"
    using column_records [of "''report_id''" Reports_header "[?row]"] key
    by (simp add: Reports_header_def)
  obtain r out w' where run: "triage ''RPT-7A1B2C3D'' ''resolved'' ''Fixed fuse''
      ''Siti Technician'' ''2024-05-02 10:00'' ?w = (r, out, w')"
    by (cases "triage ''RPT-7A1B2C3D'' ''resolved'' ''Fixed fuse''
      ''Siti Technician'' ''2024-05-02 10:00'' ?w") auto
  have b: "ErrIdNotFound ''RPT-7A1B2C3D'' ''Reports'' \<notin> set out"
    using triage_sets_four_fields_of_a_listed_report
      [where u = example_reports and w = ?w and reports = "[to_record Reports_header ?row]"
        and shown = "[]" and ids = "[''RPT-7A1B2C3D'']" and sel_id = "''RPT-7A1B2C3D''"
        and status_new = "''resolved''" and resolution = "''Fixed fuse''"
        and tech = "''Siti Technician''" and now = "''2024-05-02 10:00''"
        and r = r and out = out and w' = w']
      rd col run
    by simp
  from a rd col b run show ?thesis by simp
qed

text \<open>
  C6 as stated has the update fail with \<open>NotFound\<close> for a \<^verbatim>\<open>report_id\<close> that does not
  exist. For the id \<^verbatim>\<open>RPT-00000000\<close>, on a table that holds one other report, the handler
  returns normally: nothing is written, the not-found error is shown, and the success
  message follows it.
\<close>

theorem triage_of_unknown_report_shows_success_counterexample:
  "triage ''RPT-00000000'' ''resolved'' ''Fixed fuse'' ''Siti Technician'' ''2024-05-02 10:00''
       example_reports =
     (Inr (), [ErrIdNotFound ''RPT-00000000'' ''Reports'', OkReportUpdated],
      example_reports\<lparr>quota := 7\<rparr>)"
proof -
  let ?data = "[[''RPT-7A1B2C3D'', ''Ali User'', ''Line 3 down'', ''Conveyor stopped'', ''high'',
             ''open'', [], ''2024-05-01 09:30'', [], []]]"
  have a: "sheets example_reports ''Reports'' = Some (Reports_header # ?data)"
    by (simp add: example_reports_def)
  have b: "distinct Reports_header" by (simp add: Reports_header_def)
  have c: "\<forall>r \<in> set ?data. key_text Reports_header ''report_id'' r \<noteq> ''RPT-00000000''"
    by (simp add: key_text_def Reports_header_def row_cell_def)
  have d: "3 \<le> quota example_reports" by (simp add: example_reports_def)
  show ?thesis
    using triage_unknown [OF a b c d] by (simp add: example_reports_def)
qed

subsection \<open>QR codes\<close>








end
